theory Spec2Isabelle
  imports Complex_Main
begin

section \<open>Numbers, vectors and JavaScript arithmetic\<close>

text \<open>
  JavaScript numbers are modelled as reals: rounding of IEEE doubles is outside this
  development. Scene nodes, materials, forms, portals and broker connections are
  JavaScript objects compared by identity (\<open>===\<close>); each is modelled by a
  natural number standing for its reference.
\<close>

type_synonym objref = nat
type_synonym material = nat
type_synonym form = nat

text \<open>A \<open>THREE.Vector3\<close>: its x, y and z components.\<close>

type_synonym vec3 = "real \<times> real \<times> real"

definition vec_x :: "vec3 \<Rightarrow> real" where
  "vec_x v = fst v"

definition vec_y :: "vec3 \<Rightarrow> real" where
  "vec_y v = fst (snd v)"

definition vec_z :: "vec3 \<Rightarrow> real" where
  "vec_z v = snd (snd v)"

text \<open>\<open>a.clone().sub(b)\<close> and componentwise addition.\<close>

definition vec_sub :: "vec3 \<Rightarrow> vec3 \<Rightarrow> vec3" where
  "vec_sub a b = (vec_x a - vec_x b, vec_y a - vec_y b, vec_z a - vec_z b)"

definition vec_add :: "vec3 \<Rightarrow> vec3 \<Rightarrow> vec3" where
  "vec_add a b = (vec_x a + vec_x b, vec_y a + vec_y b, vec_z a + vec_z b)"

section \<open>ui-selection.js: the selection manager\<close>

text \<open>
  The capability record \<open>obj.userData.uisInfo\<close> built by \<open>registerObject\<close>. A handler
  field says whether the closure is present; a call of the closure is recorded in the
  world's list of calls, and what the closure does to its own object is not part of the
  selection manager. \<open>unselectedMaterial\<close> is the field \<open>selectObject\<close> adds, and
  \<open>deleteable\<close> the field \<open>selectObject\<close> reads although \<open>registerObject\<close> never
  sets it.
\<close>

record uisInfo =
  moveable :: bool
  rotatable :: bool
  selectable :: bool
  has_onDown :: bool
  has_onDelete :: bool
  has_onDragStart :: bool
  has_onRotateStart :: bool
  has_onRotate :: bool
  has_onMove :: bool
  has_onUp :: bool
  has_onSelected :: bool
  has_onUnselected :: bool
  selectedMaterial :: "material option"
  configForm :: "form option"
  unselectedMaterial :: "material option"
  deleteable :: bool

text \<open>\<open>this.state\<close>; a field that was never assigned is \<open>None\<close> or \<open>False\<close>.\<close>

record selection_state =
  selectedObject :: "objref option"
  isDragging :: bool
  posAtMouseDown :: "vec3 option"
  rotAtMouseDown :: "vec3 option"
  persistentSelectable :: bool
  persistentSelected :: bool
  prevPos :: "vec3 option"
  deltaPos :: "vec3 option"
  ctrlKey :: bool

text \<open>
  What the selection manager does to its collaborators, in the order it does it: the
  handler closures it invokes, the calls on the form UI, and a \<open>TypeError\<close> that ends
  an event handler early.
\<close>

datatype ui_call =
    CallOnDown objref vec3
  | CallOnUp objref vec3
  | CallOnMove objref vec3 vec3
  | CallOnSelected objref
  | CallOnUnselected objref
  | CallOnDelete objref
  | ShowConfigForm form
  | ClearConfigForm
  | ShowDeleteButton
  | ThrowTypeError

text \<open>
  The selection manager with the objects it touches: its state, the capability record
  and the material of every object, the rotation of every object, the form the UI
  shows, and the calls made so far (oldest first).
\<close>

record world =
  state :: selection_state
  selectAllowedRange :: real
  uisInfoOf :: "objref \<Rightarrow> uisInfo option"
  materialOf :: "objref \<Rightarrow> material option"
  rotationOf :: "objref \<Rightarrow> vec3"
  shownForm :: "form option"
  calls :: "ui_call list"

text \<open>
  A pointer event, as the handlers read it: the nearest hit of
  \<open>getObjectIntersectFromEvent\<close> (the object and the z of the hit point, from the
  renderer's ray caster), the result of \<open>getMousePosGivenZ\<close> for every z (from the
  camera), and \<open>e.ctrlKey\<close>.
\<close>

record pointer_event =
  intersect :: "(objref \<times> real) option"
  mousePosGivenZ :: "real \<Rightarrow> vec3"
  ev_ctrlKey :: bool

definition defaultSelectAllowedRange :: real where
  "defaultSelectAllowedRange = 15"

definition emit :: "ui_call \<Rightarrow> world \<Rightarrow> world" where
  "emit c w = w\<lparr>calls := calls w @ [c]\<rparr>"

text \<open>The constructor: \<open>opts.selectAllowedRange || defaultSelectAllowedRange\<close>.\<close>

definition UISelection ::
  "real option \<Rightarrow> (objref \<Rightarrow> material option) \<Rightarrow> (objref \<Rightarrow> vec3) \<Rightarrow> world" where
  "UISelection optRange mats rots =
     \<lparr> state = \<lparr> selectedObject = None, isDragging = False, posAtMouseDown = None,
                 rotAtMouseDown = None, persistentSelectable = False,
                 persistentSelected = False, prevPos = None, deltaPos = None,
                 ctrlKey = False \<rparr>,
       selectAllowedRange =
         (case optRange of None \<Rightarrow> defaultSelectAllowedRange
          | Some r \<Rightarrow> if r = 0 then defaultSelectAllowedRange else r),
       uisInfoOf = (\<lambda>_. None),
       materialOf = mats,
       rotationOf = rots,
       shownForm = None,
       calls = [] \<rparr>"

text \<open>
  \<open>registerObject\<close> copies the fourteen options into a fresh record, so the two
  fields it does not copy start absent; \<open>unregisterObject\<close> stores \<open>null\<close>.
\<close>

definition registerObject :: "world \<Rightarrow> objref \<Rightarrow> uisInfo \<Rightarrow> world" where
  "registerObject w obj opts =
     w\<lparr>uisInfoOf := (uisInfoOf w)(obj := Some (opts\<lparr>unselectedMaterial := None, deleteable := False\<rparr>))\<rparr>"

definition unregisterObject :: "world \<Rightarrow> objref \<Rightarrow> world" where
  "unregisterObject w obj = w\<lparr>uisInfoOf := (uisInfoOf w)(obj := None)\<rparr>"

definition selectObject :: "world \<Rightarrow> objref option \<Rightarrow> world" where
  "selectObject w objOpt =
     (case objOpt of
        None \<Rightarrow> w
      | Some obj \<Rightarrow>
          (case uisInfoOf w obj of
             None \<Rightarrow> w
           | Some info \<Rightarrow>
               let w1 = (if has_onSelected info then emit (CallOnSelected obj) w else w);
                   w2 = w1\<lparr>state := (state w1)\<lparr>selectedObject := Some obj,
                                                 persistentSelected := True\<rparr>\<rparr>;
                   w3 = (case selectedMaterial info of
                           None \<Rightarrow> w2
                         | Some m \<Rightarrow>
                             w2\<lparr>uisInfoOf := (uisInfoOf w2)
                                   (obj := Some (info\<lparr>unselectedMaterial := materialOf w2 obj\<rparr>)),
                                materialOf := (materialOf w2)(obj := Some m)\<rparr>);
                   w4 = (case configForm info of
                           None \<Rightarrow> w3
                         | Some f \<Rightarrow> emit (ShowConfigForm f) (w3\<lparr>shownForm := Some f\<rparr>))
               in if deleteable info then emit ShowDeleteButton w4 else w4))"

definition unselectObject :: "world \<Rightarrow> objref option \<Rightarrow> world" where
  "unselectObject w objOpt =
     (case (case objOpt of None \<Rightarrow> selectedObject (state w) | Some obj \<Rightarrow> Some obj) of
        None \<Rightarrow> w
      | Some obj \<Rightarrow>
          (case uisInfoOf w obj of
             None \<Rightarrow> w
           | Some info \<Rightarrow>
               let w1 = (if has_onUnselected info then emit (CallOnUnselected obj) w else w);
                   w2 = w1\<lparr>state := (state w1)\<lparr>persistentSelected := False,
                                                 selectedObject := None\<rparr>\<rparr>;
                   w3 = emit ClearConfigForm (w2\<lparr>shownForm := None\<rparr>)
               in (case unselectedMaterial info of
                     None \<Rightarrow> w3
                   | Some m \<Rightarrow> w3\<lparr>materialOf := (materialOf w3)(obj := Some m)\<rparr>)))"

definition onDown :: "world \<Rightarrow> pointer_event \<Rightarrow> world" where
  "onDown w e =
     (case intersect e of
        None \<Rightarrow> w
      | Some (obj, hitZ) \<Rightarrow>
          let w1 = (if persistentSelected (state w) \<and> selectedObject (state w) \<noteq> Some obj
                    then unselectObject w (selectedObject (state w)) else w)
          in (case uisInfoOf w1 obj of
                None \<Rightarrow> w1
              | Some info \<Rightarrow>
                  let p = mousePosGivenZ e hitZ;
                      s1 = (state w1)\<lparr>selectedObject := Some obj,
                                       persistentSelectable := selectable info,
                                       posAtMouseDown := Some p,
                                       rotAtMouseDown := Some (rotationOf w1 obj),
                                       prevPos := Some p\<rparr>;
                      s2 = (if moveable info then s1\<lparr>isDragging := True\<rparr> else s1);
                      w2 = w1\<lparr>state := s2\<rparr>
                  in if has_onDown info
                     then emit (CallOnDown obj p) (w2\<lparr>state := s2\<lparr>ctrlKey := ev_ctrlKey e\<rparr>\<rparr>)
                     else w2))"

text \<open>
  \<open>onUp\<close> reads \<open>this.state.posAtMouseDown.z\<close> for the \<open>onUp\<close> closure; when no
  pointer-down has stored a position this raises a \<open>TypeError\<close>, and the final
  \<open>isDragging = false\<close> is not reached.
\<close>

definition onUp :: "world \<Rightarrow> pointer_event \<Rightarrow> world" where
  "onUp w e =
     (let stop = (\<lambda>v. v\<lparr>state := (state v)\<lparr>isDragging := False\<rparr>\<rparr>)
      in case selectedObject (state w) of
           None \<Rightarrow> stop w
         | Some obj \<Rightarrow>
             (case uisInfoOf w obj of
                None \<Rightarrow> stop w
              | Some info \<Rightarrow>
                  let w1 = (if selectable info \<and> persistentSelectable (state w)
                            then selectObject w (Some obj)
                            else w\<lparr>state := (state w)\<lparr>selectedObject := None,
                                                        persistentSelected := False\<rparr>\<rparr>)
                  in if has_onUp info
                     then (case posAtMouseDown (state w1) of
                             None \<Rightarrow> emit ThrowTypeError w1
                           | Some p0 \<Rightarrow>
                               stop (emit (CallOnUp obj (mousePosGivenZ e (vec_z p0)))
                                       (w1\<lparr>state := (state w1)\<lparr>ctrlKey := ev_ctrlKey e\<rparr>\<rparr>)))
                     else stop w1))"

definition onMove :: "world \<Rightarrow> pointer_event \<Rightarrow> world" where
  "onMove w e =
     (if \<not> isDragging (state w) then w
      else case selectedObject (state w) of
             None \<Rightarrow> w
           | Some obj \<Rightarrow>
               (case uisInfoOf w obj of
                  None \<Rightarrow> w
                | Some info \<Rightarrow>
                    (case posAtMouseDown (state w) of
                       None \<Rightarrow> emit ThrowTypeError w
                     | Some p0 \<Rightarrow>
                         let pos = mousePosGivenZ e (vec_z p0);
                             dx = vec_x pos - vec_x p0;
                             dy = vec_y pos - vec_y p0;
                             dist = sqrt (dx * dx + dy * dy);
                             w1 = (if selectable info \<and> dist > selectAllowedRange w
                                   then w\<lparr>state := (state w)\<lparr>persistentSelectable := False\<rparr>\<rparr>
                                   else w)
                         in if has_onMove info
                            then (case prevPos (state w1) of
                                    None \<Rightarrow> emit ThrowTypeError w1
                                  | Some pp \<Rightarrow>
                                      let d = vec_sub pos pp;
                                          w2 = emit (CallOnMove obj pos d)
                                                 (w1\<lparr>state := (state w1)\<lparr>deltaPos := Some d,
                                                                            ctrlKey := ev_ctrlKey e\<rparr>\<rparr>)
                                      in w2\<lparr>state := (state w2)\<lparr>prevPos := Some pos\<rparr>\<rparr>)
                            else w1)))"

definition deleteSelectedObject :: "world \<Rightarrow> bool \<Rightarrow> world" where
  "deleteSelectedObject w force =
     (case selectedObject (state w) of
        None \<Rightarrow> w
      | Some obj \<Rightarrow>
          (case uisInfoOf w obj of
             None \<Rightarrow> w
           | Some info \<Rightarrow>
               if persistentSelected (state w) \<or> force
               then (let w1 = unselectObject w (Some obj)
                     in if has_onDelete info then emit (CallOnDelete obj) w1 else w1)
               else w))"

definition deletePointerUp :: "world \<Rightarrow> world" where
  "deletePointerUp w = (if isDragging (state w) then deleteSelectedObject w True else w)"

subsection \<open>Sequences of operations\<close>

datatype ui_op =
    PointerDown pointer_event
  | PointerMove pointer_event
  | PointerUp pointer_event
  | Select "objref option"
  | Unselect "objref option"
  | Delete bool

fun ui_step :: "world \<Rightarrow> ui_op \<Rightarrow> world" where
  "ui_step w (PointerDown e) = onDown w e"
| "ui_step w (PointerMove e) = onMove w e"
| "ui_step w (PointerUp e) = onUp w e"
| "ui_step w (Select obj) = selectObject w obj"
| "ui_step w (Unselect obj) = unselectObject w obj"
| "ui_step w (Delete force) = deleteSelectedObject w force"

definition ui_run :: "world \<Rightarrow> ui_op list \<Rightarrow> world" where
  "ui_run w ops = foldl ui_step w ops"

text \<open>
  A drag session: one pointer-down, the pointer-moves that follow it and one
  pointer-up, in arrival order.
\<close>

definition session :: "world \<Rightarrow> pointer_event \<Rightarrow> pointer_event list \<Rightarrow> pointer_event \<Rightarrow> world" where
  "session w down moves up = onUp (foldl onMove (onDown w down) moves) up"

text \<open>The deltas handed to \<open>onMove\<close> closures in a list of calls, and their sum.\<close>

fun deltas :: "ui_call list \<Rightarrow> vec3 list" where
  "deltas [] = []"
| "deltas (CallOnMove obj pos d # cs) = d # deltas cs"
| "deltas (c # cs) = deltas cs"

definition sum_vec :: "vec3 list \<Rightarrow> vec3" where
  "sum_vec ds = foldr vec_add ds (0, 0, 0)"

text \<open>
  The entity that holds the persistent selection, and the entity in the
  \<open>selectedObject\<close> slot, as predicates on entities.
\<close>

definition holdsPersistentSelection :: "world \<Rightarrow> objref \<Rightarrow> bool" where
  "holdsPersistentSelection w obj =
     (persistentSelected (state w) \<and> selectedObject (state w) = Some obj)"

definition occupiesSlot :: "world \<Rightarrow> objref \<Rightarrow> bool" where
  "occupiesSlot w obj = (selectedObject (state w) = Some obj)"

section \<open>portal.js: the portal\<close>

subsection \<open>JavaScript arithmetic on angles\<close>

text \<open>
  \<open>Math.atan2(y, x)\<close> over the reals (no signed zero: \<open>atan2(0, x)\<close> for negative
  \<open>x\<close> is \<open>pi\<close>, and \<open>atan2(0, 0)\<close> is \<open>0\<close>).
\<close>

definition Math_atan2 :: "real \<Rightarrow> real \<Rightarrow> real" where
  "Math_atan2 b a =
     (if 0 < a then arctan (b / a)
      else if a < 0 then (if 0 \<le> b then arctan (b / a) + pi else arctan (b / a) - pi)
      else if 0 < b then pi / 2
      else if b < 0 then - (pi / 2)
      else 0)"

text \<open>
  The remainder operator \<open>a % b\<close>: the quotient is truncated towards zero, so the
  result has the sign of \<open>a\<close>.
\<close>

definition js_trunc :: "real \<Rightarrow> int" where
  "js_trunc r = (if 0 \<le> r then \<lfloor>r\<rfloor> else \<lceil>r\<rceil>)"

definition js_rem :: "real \<Rightarrow> real \<Rightarrow> real" where
  "js_rem a b = a - b * of_int (js_trunc (a / b))"

text \<open>
  Modelled from the spec: \<open>utils.rotatePoint(cx, cy, x, y, angle)\<close>, whose file
  utils.js is not among the sources. The spec describes it as the rotation of a point
  about an arbitrary centre; it is taken counter-clockwise, over the reals.
\<close>

definition rotatePoint :: "real \<Rightarrow> real \<Rightarrow> real \<Rightarrow> real \<Rightarrow> real \<Rightarrow> real \<times> real" where
  "rotatePoint cx cy px py angle =
     (cx + (px - cx) * cos angle - (py - cy) * sin angle,
      cy + (px - cx) * sin angle + (py - cy) * cos angle)"

text \<open>
  The angular distance between two directions, as the spec words it (``the wrapped
  angular difference''): the difference of the angles brought into the half-open turn
  around zero, without its sign. It lies between \<open>0\<close> and \<open>pi\<close>.
\<close>

definition wrapped_angular_difference :: "real \<Rightarrow> real \<Rightarrow> real" where
  "wrapped_angular_difference a b =
     \<bar>(a - b) - 2 * pi * of_int (round ((a - b) / (2 * pi)))\<bar>"

text \<open>\<open>String.prototype.toLowerCase\<close> on ASCII letters.\<close>

definition toLowerCase :: "string \<Rightarrow> string" where
  "toLowerCase s =
     map (\<lambda>c. if 65 \<le> (of_char c :: nat) \<and> (of_char c :: nat) \<le> 90
              then char_of ((of_char c :: nat) + 32) else c) s"

subsection \<open>The physics engine\<close>

text \<open>
  Modelled from the spec: the physics engine is an external collaborator, not among
  the sources. \<open>createCircle\<close> and \<open>createBox\<close> register a body for an owner and
  return a handle no registered body has; \<open>removeBody\<close> takes the body with that
  handle out of the engine. Of a body the model keeps its handle, its owner, its shape
  and whether it was created with an \<open>onCollision\<close> hook; coordinates and sizes are
  left out.
\<close>

datatype body_shape = Circle | Box

record body =
  body_id :: nat
  body_owner :: objref
  body_shape :: body_shape
  body_onCollision :: bool

record physics =
  bodies :: "body list"
  next_body :: nat

definition createBody :: "physics \<Rightarrow> objref \<Rightarrow> body_shape \<Rightarrow> bool \<Rightarrow> nat \<times> physics" where
  "createBody ph owner shape hook =
     (next_body ph,
      ph\<lparr>bodies := bodies ph @ [\<lparr>body_id = next_body ph, body_owner = owner,
                                  body_shape = shape, body_onCollision = hook\<rparr>],
         next_body := Suc (next_body ph)\<rparr>)"

definition createCircle :: "physics \<Rightarrow> objref \<Rightarrow> bool \<Rightarrow> nat \<times> physics" where
  "createCircle ph owner hook = createBody ph owner Circle hook"

definition createBox :: "physics \<Rightarrow> objref \<Rightarrow> bool \<Rightarrow> nat \<times> physics" where
  "createBox ph owner hook = createBody ph owner Box hook"

definition removeBody :: "physics \<Rightarrow> nat \<Rightarrow> physics" where
  "removeBody ph b = ph\<lparr>bodies := filter (\<lambda>x. body_id x \<noteq> b) (bodies ph)\<rparr>"

text \<open>The handles of the bodies registered for an owner.\<close>

definition bodiesOwnedBy :: "physics \<Rightarrow> objref \<Rightarrow> nat list" where
  "bodiesOwnedBy ph owner = map body_id (filter (\<lambda>x. body_owner x = owner) (bodies ph))"

subsection \<open>Data of a portal\<close>

type_synonym connref = nat

datatype js_error = TypeError

text \<open>
  A child of the portal's \<open>THREE.Group\<close>: its identity, its \<open>type\<close> string and
  \<open>userData.physicsBodies\<close> (\<open>None\<close> when the field was never set).
\<close>

record scene_node =
  node_id :: objref
  node_type :: string
  physicsBodies :: "nat list option"

text \<open>
  The wire payload: the object's exported configuration (\<open>getConfig()\<close>) with the
  fields the portal writes. A configuration or an inbound message may lack a velocity.
\<close>

record envelope =
  env_config :: "(string \<times> string) list"
  env_x :: real
  env_y :: real
  env_velocity :: "(real \<times> real) option"
  env_rotation :: real
  env_angularVelocity :: real
  env_guid :: string
  env_type :: string

text \<open>
  What the portal reads of a colliding world object (its class is not among the
  sources; the fields are the results of the calls the portal makes on it) and of the
  object's physics body.
\<close>

record world_object =
  obj_ref :: objref
  obj_guid :: string
  obj_constructor_name :: string
  obj_color :: string
  obj_forceTopic :: bool
  obj_topic :: "string option"
  obj_isStatic :: bool
  obj_isCoolingDown :: bool
  obj_fromPortal :: "objref option"
  obj_group_rotation_z :: real
  obj_getConfig :: envelope

record moving_body =
  getLinearVelocity :: "real \<times> real"
  getAngularVelocity :: real

text \<open>The application: its brokers by name, and the connection a broker hands out.\<close>

record app =
  getBrokerByName :: "string \<Rightarrow> objref option"
  createConnection :: "objref \<Rightarrow> connref"

text \<open>
  The fields of \<open>this\<close>. \<open>self\<close> is the identity of the portal object,
  \<open>fresh_node\<close> the reference the next \<open>new THREE.Mesh\<close> (or light, or group)
  receives. \<open>rotationAdjustment\<close> is read only after \<open>rotationPoint\<close>, and both are
  assigned by the same handler.
\<close>

record portal =
  self :: objref
  portal_name :: string
  portalId :: string
  portal_x :: real
  portal_y :: real
  rotation :: real
  enabled :: bool
  bindToQueue :: bool
  queueName :: string
  useSubscriptionList :: bool
  subscriptionList :: "string list"
  broker :: "string option"
  brokerConnection :: "connref option"
  connected_flag :: bool
  selected :: bool
  group_children :: "scene_node list"
  group_position :: vec3
  group_rotation_z :: real
  pointLight :: "objref option"
  torus :: "objref option"
  mist :: "objref option"
  screwHeads :: "objref list"
  rotationPoint :: "vec3 option"
  rotationAdjustment :: real
  fresh_node :: objref

text \<open>What a portal does to the scene, the physics engine, the broker and the world.\<close>

datatype portal_effect =
    RemoveBody nat
  | RemoveMesh objref
  | CreateConnection objref connref
  | BindToQueue connref string
  | Disconnect connref
  | SetSubscriptions connref "string list"
  | Publish connref string envelope
  | DestroyObject objref
  | AddObjectFromMessage envelope string
  | SetFromPortal objref objref

subsection \<open>Geometry: creating and destroying the meshes\<close>

definition new_node :: "portal \<Rightarrow> objref \<times> portal" where
  "new_node p = (fresh_node p, p\<lparr>fresh_node := Suc (fresh_node p)\<rparr>)"

definition group_add :: "portal \<Rightarrow> scene_node \<Rightarrow> portal" where
  "group_add p n = p\<lparr>group_children := group_children p @ [n]\<rparr>"

text \<open>
  The capability record \<open>createPortal\<close> registers for the torus, the mist, the tube
  and the back, and the one \<open>createScrewHeads\<close> registers for a screw head. The
  registrations act on the selection manager, and \<open>setConnectEffects\<close> only on
  colours and light; neither touches the portal's group or the physics engine, and
  the create functions below leave them out.
\<close>

definition portalUisInfo :: "form \<Rightarrow> uisInfo" where
  "portalUisInfo f =
     \<lparr> moveable = True, rotatable = False, selectable = True, has_onDown = True,
       has_onDelete = True, has_onDragStart = False, has_onRotateStart = False,
       has_onRotate = False, has_onMove = True, has_onUp = True, has_onSelected = True,
       has_onUnselected = True, selectedMaterial = None, configForm = Some f,
       unselectedMaterial = None, deleteable = False \<rparr>"

definition screwHeadUisInfo :: "material \<Rightarrow> uisInfo" where
  "screwHeadUisInfo m =
     \<lparr> moveable = True, rotatable = False, selectable = False, has_onDown = True,
       has_onDelete = False, has_onDragStart = False, has_onRotateStart = False,
       has_onRotate = False, has_onMove = True, has_onUp = False, has_onSelected = False,
       has_onUnselected = False, selectedMaterial = Some m, configForm = None,
       unselectedMaterial = None, deleteable = False \<rparr>"

definition createTorus :: "portal \<times> physics \<Rightarrow> portal \<times> physics" where
  "createTorus s =
     (case s of (p, ph) \<Rightarrow>
        (case new_node p of (n, p1) \<Rightarrow>
           (case createCircle ph (self p) False of (b1, ph1) \<Rightarrow>
              (case createCircle ph1 (self p) False of (b2, ph2) \<Rightarrow>
                 ((group_add p1 \<lparr>node_id = n, node_type = ''Mesh'',
                                  physicsBodies = Some [b1, b2]\<rparr>)\<lparr>torus := Some n\<rparr>,
                  ph2)))))"

definition createPointLight :: "portal \<times> physics \<Rightarrow> portal \<times> physics" where
  "createPointLight s =
     (case s of (p, ph) \<Rightarrow>
        (case pointLight p of
           Some l \<Rightarrow> (p, ph)
         | None \<Rightarrow>
             (case new_node p of (n, p1) \<Rightarrow>
                ((group_add (p1\<lparr>pointLight := Some n\<rparr>)
                    \<lparr>node_id = n, node_type = ''PointLight'', physicsBodies = None\<rparr>),
                 ph))))"

definition createMist :: "portal \<times> physics \<Rightarrow> portal \<times> physics" where
  "createMist s =
     (case s of (p, ph) \<Rightarrow>
        (case new_node p of (n, p1) \<Rightarrow>
           ((group_add p1 \<lparr>node_id = n, node_type = ''Mesh'', physicsBodies = None\<rparr>)
              \<lparr>mist := Some n\<rparr>,
            ph)))"

definition createTube :: "portal \<times> physics \<Rightarrow> portal \<times> physics" where
  "createTube s =
     (case s of (p, ph) \<Rightarrow>
        (case new_node p of (n, p1) \<Rightarrow>
           (case createBox ph (self p) False of (b1, ph1) \<Rightarrow>
              (case createBox ph1 (self p) False of (b2, ph2) \<Rightarrow>
                 (group_add p1 \<lparr>node_id = n, node_type = ''Mesh'',
                                 physicsBodies = Some [b1, b2]\<rparr>,
                  ph2)))))"

text \<open>The second body of the back is the one created with the \<open>onCollision\<close> hook.\<close>

definition createBack :: "portal \<times> physics \<Rightarrow> portal \<times> physics" where
  "createBack s =
     (case s of (p, ph) \<Rightarrow>
        (case new_node p of (n, p1) \<Rightarrow>
           (case createBox ph (self p) False of (b1, ph1) \<Rightarrow>
              (case createBox ph1 (self p) True of (b2, ph2) \<Rightarrow>
                 (group_add p1 \<lparr>node_id = n, node_type = ''Mesh'',
                                 physicsBodies = Some [b1, b2]\<rparr>,
                  ph2)))))"

text \<open>
  One screw head: the cloned model and its pivot group are two new objects; the pivot
  is the one added to the portal's group and pushed on \<open>screwHeads\<close>.
\<close>

definition createScrewHead :: "portal \<Rightarrow> portal" where
  "createScrewHead p =
     (case new_node p of (screwHead, p1) \<Rightarrow>
        (case new_node p1 of (pivot, p2) \<Rightarrow>
           (group_add p2 \<lparr>node_id = pivot, node_type = ''Group'', physicsBodies = None\<rparr>)
             \<lparr>screwHeads := screwHeads p2 @ [pivot]\<rparr>))"

definition createScrewHeads :: "portal \<times> physics \<Rightarrow> portal \<times> physics" where
  "createScrewHeads s =
     (case s of (p, ph) \<Rightarrow>
        (createScrewHead (createScrewHead (p\<lparr>screwHeads := []\<rparr>)), ph))"

definition createPortal :: "portal \<times> physics \<Rightarrow> portal \<times> physics" where
  "createPortal s =
     (case createScrewHeads (createBack (createTube (createMist (createPointLight
             (createTorus s))))) of
        (p, ph) \<Rightarrow>
          (p\<lparr>group_position := (portal_x p, portal_y p, 0),
             group_rotation_z := rotation p\<rparr>, ph))"

text \<open>
  \<open>destroyPortal\<close> walks a copy of the group's children. For each child it removes
  the child's physics bodies from the engine and empties the child's list, then
  removes the child from the group unless it is the point light. The result is the
  children that stay, the engine, and the removals in the order they happen.
\<close>

fun destroyChildren ::
  "scene_node list \<Rightarrow> physics \<Rightarrow> scene_node list \<times> physics \<times> portal_effect list" where
  "destroyChildren [] ph = ([], ph, [])"
| "destroyChildren (m # ms) ph =
     (let bs = (case physicsBodies m of None \<Rightarrow> [] | Some l \<Rightarrow> l);
          m1 = (case physicsBodies m of None \<Rightarrow> m | Some l \<Rightarrow> m\<lparr>physicsBodies := Some []\<rparr>);
          ph1 = foldl removeBody ph bs;
          removed = (node_type m \<noteq> ''PointLight'')
      in case destroyChildren ms ph1 of
           (rest, ph2, tr) \<Rightarrow>
             ((if removed then rest else m1 # rest), ph2,
              map RemoveBody bs @ (if removed then [RemoveMesh (node_id m)] else []) @ tr))"

definition destroyPortal :: "portal \<times> physics \<Rightarrow> (portal \<times> physics) \<times> portal_effect list" where
  "destroyPortal s =
     (case s of (p, ph) \<Rightarrow>
        (case destroyChildren (group_children p) ph of
           (rest, ph1, tr) \<Rightarrow> ((p\<lparr>group_children := rest\<rparr>, ph1), tr)))"

definition reDraw :: "portal \<times> physics \<Rightarrow> portal \<times> physics" where
  "reDraw s = createPortal (fst (destroyPortal s))"

text \<open>The bodies one child holds, and the bodies the current meshes of a portal hold.\<close>

definition bodiesOf :: "scene_node \<Rightarrow> nat list" where
  "bodiesOf m = (case physicsBodies m of None \<Rightarrow> [] | Some l \<Rightarrow> l)"

definition meshBodies :: "portal \<Rightarrow> nat list" where
  "meshBodies p =
     concat (map (\<lambda>m. case physicsBodies m of None \<Rightarrow> [] | Some l \<Rightarrow> l) (group_children p))"

text \<open>
  The constructor, for the options \<open>name\<close>, \<open>portalId\<close>, \<open>broker\<close>, \<open>x\<close>,
  \<open>y\<close> and \<open>rotation\<close> (the others at their defaults), up to and including
  \<open>this.create()\<close>. \<open>ref\<close> is the identity of the new portal; the objects it
  creates take the references after it. The delayed \<open>manageConnection\<close> is a
  separate event.
\<close>

definition Portal ::
  "objref \<Rightarrow> string \<Rightarrow> string \<Rightarrow> string option \<Rightarrow> real \<Rightarrow> real \<Rightarrow> real \<Rightarrow> physics
     \<Rightarrow> portal \<times> physics" where
  "Portal ref nm pid br px py rot ph =
     createPortal
       (\<lparr> self = ref,
          portal_name = (if nm = [] then ''Unnamed Portal'' else nm),
          portalId = (if pid = [] then ''1'' else pid),
          portal_x = px, portal_y = py, rotation = rot,
          enabled = True, bindToQueue = False, queueName = [],
          useSubscriptionList = False, subscriptionList = [''text/one'', ''text/two''],
          broker = (if br = Some [] then None else br),
          brokerConnection = None, connected_flag = False, selected = False,
          group_children = [], group_position = (0, 0, 0), group_rotation_z = 0,
          pointLight = None, torus = None, mist = None, screwHeads = [],
          rotationPoint = None, rotationAdjustment = 0, fresh_node = Suc ref \<rparr>, ph)"

subsection \<open>The broker connection\<close>

definition connect :: "app \<Rightarrow> portal \<Rightarrow> portal \<times> portal_effect list" where
  "connect a p =
     (if brokerConnection p \<noteq> None \<or> broker p = None \<or> broker p = Some [] then (p, [])
      else case getBrokerByName a (the (broker p)) of
             None \<Rightarrow> (p, [])
           | Some b \<Rightarrow>
               (let c = createConnection a b
                in (p\<lparr>brokerConnection := Some c\<rparr>,
                    CreateConnection b c #
                    (if bindToQueue p \<and> queueName p \<noteq> [] then [BindToQueue c (queueName p)]
                     else []))))"

definition disconnect :: "portal \<Rightarrow> portal \<times> portal_effect list" where
  "disconnect p =
     (case brokerConnection p of
        None \<Rightarrow> (p, [])
      | Some c \<Rightarrow> (p\<lparr>brokerConnection := None\<rparr>, [Disconnect c]))"

definition manageConnection :: "app \<Rightarrow> portal \<Rightarrow> portal \<times> portal_effect list" where
  "manageConnection a p =
     (if enabled p \<and> brokerConnection p = None then connect a p
      else if \<not> enabled p \<and> brokerConnection p \<noteq> None then disconnect p
      else (p, []))"

definition subscribeToPortalTopics :: "portal \<Rightarrow> portal_effect list" where
  "subscribeToPortalTopics p =
     (case brokerConnection p of
        None \<Rightarrow> []
      | Some c \<Rightarrow>
          (if useSubscriptionList p then [SetSubscriptions c (subscriptionList p)]
           else [SetSubscriptions c [''portal/*/'' @ portalId p @ ''/#'']]))"

definition onConnect :: "portal \<Rightarrow> portal \<times> portal_effect list" where
  "onConnect p =
     (let p1 = p\<lparr>connected_flag := True\<rparr> in (p1, subscribeToPortalTopics p1))"

definition onDisconnect :: "portal \<Rightarrow> portal" where
  "onDisconnect p = p\<lparr>connected_flag := False\<rparr>"

subsection \<open>Transit\<close>

text \<open>
  \<open>onMessage\<close> rewrites the payload in place and hands it to the world registry
  (\<open>addObjectFromMessage\<close>, a parameter: the registry is not among the sources). The
  result is the rewritten payload and the calls made. A payload without a velocity
  raises a \<open>TypeError\<close> at \<open>newObj.velocity.x\<close>.
\<close>

definition onMessage ::
  "(envelope \<Rightarrow> string \<Rightarrow> objref option) \<Rightarrow> portal \<Rightarrow> string \<Rightarrow> envelope
     \<Rightarrow> js_error + envelope \<times> portal_effect list" where
  "onMessage addObjectFromMessage p topic payload =
     (let n1 = payload\<lparr>env_x := portal_x p + cos (rotation p) * 10,
                       env_y := portal_y p + sin (rotation p) * 10\<rparr>;
          n2 = n1\<lparr>env_rotation := env_rotation n1 + rotation p\<rparr>
      in case env_velocity n2 of
           None \<Rightarrow> Inl TypeError
         | Some (vx, vy) \<Rightarrow>
             (let n3 = n2\<lparr>env_velocity := Some (rotatePoint 0 0 vx vy (rotation p + pi))\<rparr>
              in Inr (n3,
                      AddObjectFromMessage n3 topic #
                      (case addObjectFromMessage n3 topic of
                         None \<Rightarrow> []
                       | Some added \<Rightarrow> [SetFromPortal added (self p)]))))"

text \<open>
  \<open>sendObjectToBroker\<close> ends with \<open>this.brokerConnection.publish(topic, config)\<close>,
  which raises a \<open>TypeError\<close> when the connection reference is \<open>null\<close>.
\<close>

definition sendObjectToBroker ::
  "portal \<Rightarrow> moving_body \<Rightarrow> world_object \<Rightarrow> js_error + portal_effect list" where
  "sendObjectToBroker p b obj =
     (let config = obj_getConfig obj;
          velocity = getLinearVelocity b;
          angularVelocity = getAngularVelocity b;
          objRotation = obj_group_rotation_z obj - group_rotation_z p;
          normalizedV = rotatePoint 0 0 (fst velocity) (snd velocity) (- group_rotation_z p);
          config1 = config\<lparr>env_velocity := Some normalizedV,
                           env_rotation := objRotation,
                           env_angularVelocity := angularVelocity,
                           env_guid := obj_guid obj,
                           env_type := toLowerCase (obj_constructor_name obj)\<rparr>;
          topic = (if obj_forceTopic obj \<and> obj_topic obj \<noteq> None \<and> obj_topic obj \<noteq> Some []
                   then the (obj_topic obj)
                   else ''portal/'' @ portal_name p @ ''/'' @ portalId p @ ''/'' @
                        obj_constructor_name obj @ ''/'' @ obj_color obj)
      in case brokerConnection p of
           None \<Rightarrow> Inl TypeError
         | Some c \<Rightarrow> Inr [Publish c topic config1])"

definition onCollision ::
  "portal \<Rightarrow> moving_body \<Rightarrow> world_object \<Rightarrow> js_error + portal_effect list" where
  "onCollision p b obj =
     (if \<not> connected_flag p then Inr []
      else if obj_isCoolingDown obj \<and> obj_fromPortal obj = Some (self p) then Inr []
      else if \<not> obj_isStatic obj
      then (case sendObjectToBroker p b obj of
              Inl err \<Rightarrow> Inl err
            | Inr effs \<Rightarrow> Inr (effs @ [DestroyObject (obj_ref obj)]))
      else Inr [])"

text \<open>The publish calls among the effects of a handler.\<close>

fun publishCalls :: "js_error + portal_effect list \<Rightarrow> portal_effect list" where
  "publishCalls (Inl err) = []"
| "publishCalls (Inr effs) = filter (\<lambda>x. case x of Publish c t v \<Rightarrow> True | _ \<Rightarrow> False) effs"

subsection \<open>Rotating by dragging a screw head\<close>

text \<open>
  \<open>getWorldPosition\<close> of a pivot comes from the renderer's scene graph and is a
  parameter. With fewer than two screw heads \<open>find\<close> returns \<open>undefined\<close> and the
  call on it raises a \<open>TypeError\<close>.
\<close>

definition onDownScrewHead ::
  "(objref \<Rightarrow> vec3) \<Rightarrow> portal \<Rightarrow> objref \<Rightarrow> vec3 \<Rightarrow> js_error + portal" where
  "onDownScrewHead getWorldPosition p screwHead pos =
     (case find (\<lambda>sh. sh \<noteq> screwHead) (screwHeads p) of
        None \<Rightarrow> Inl TypeError
      | Some otherScrewHead \<Rightarrow>
          (let oshPos = getWorldPosition otherScrewHead;
               angle = Math_atan2 (vec_y oshPos - vec_y pos) (vec_x oshPos - vec_x pos) + pi / 2
           in Inr (p\<lparr>rotationPoint := Some oshPos,
                     rotationAdjustment :=
                       (if \<bar>js_rem (rotation p - angle) (pi * 2)\<bar> > pi / 2 then pi else 0)\<rparr>)))"

definition onMoveScrewHead ::
  "portal \<times> physics \<Rightarrow> vec3 \<Rightarrow> js_error + portal \<times> physics" where
  "onMoveScrewHead s pos =
     (case s of (p, ph) \<Rightarrow>
        (case rotationPoint p of
           None \<Rightarrow> Inl TypeError
         | Some rp \<Rightarrow>
             (let angle = Math_atan2 (vec_y rp - vec_y pos) (vec_x rp - vec_x pos) + pi / 2
                            + rotationAdjustment p;
                  xy = rotatePoint (vec_x rp) (vec_y rp) (vec_x (group_position p))
                         (vec_y (group_position p)) (angle - rotation p)
              in Inr (reDraw (p\<lparr>portal_x := fst xy, portal_y := snd xy,
                                 rotation := js_rem angle (pi * 2)\<rparr>, ph)))))"

text \<open>The bearing of the spec: from the pointer to the pivot, turned by a quarter.\<close>

definition bearing :: "vec3 \<Rightarrow> vec3 \<Rightarrow> real" where
  "bearing pivot pointer =
     Math_atan2 (vec_y pivot - vec_y pointer) (vec_x pivot - vec_x pointer) + pi / 2"

section \<open>Notions used to state the properties\<close>

text \<open>
  The planar distance \<open>onMove\<close> compares with the allowed range, the calls a handler
  added to the list, and the position a pointer event has on the plane of the
  pointer-down position.
\<close>

definition planarDistance :: "vec3 \<Rightarrow> vec3 \<Rightarrow> real" where
  "planarDistance a b =
     sqrt ((vec_x a - vec_x b) * (vec_x a - vec_x b) + (vec_y a - vec_y b) * (vec_y a - vec_y b))"

definition newCalls :: "world \<Rightarrow> world \<Rightarrow> ui_call list" where
  "newCalls w w' = drop (length (calls w)) (calls w')"

definition pointerPos :: "pointer_event \<Rightarrow> vec3 \<Rightarrow> vec3" where
  "pointerPos e p0 = mousePosGivenZ e (vec_z p0)"

text \<open>
  A small scene for instantiating the theorems: the meshes 10 and 20 carry the
  capability record of a portal (forms 7 and 8), object 30 that of a screw head, and
  object 40 is selectable with a selected material but cannot be moved.
\<close>

definition fixedInfo :: uisInfo where
  "fixedInfo = (portalUisInfo 9)\<lparr>moveable := False, selectedMaterial := Some 6\<rparr>"

definition demoScene :: world where
  "demoScene =
     registerObject (registerObject (registerObject (registerObject
       (UISelection None (\<lambda>obj. Some 0) (\<lambda>obj. (0, 0, 0)))
       10 (portalUisInfo 7)) 20 (portalUisInfo 8)) 30 (screwHeadUisInfo 5)) 40 fixedInfo"

definition pointerAt :: "objref option \<Rightarrow> real \<Rightarrow> real \<Rightarrow> pointer_event" where
  "pointerAt hit px py =
     \<lparr> intersect = map_option (\<lambda>obj. (obj, 0)) hit,
       mousePosGivenZ = (\<lambda>depth. (px, py, depth)),
       ev_ctrlKey = False \<rparr>"

text \<open>The small scene after a click on mesh 10, which selects it.\<close>

definition demoSelected :: world where
  "demoSelected = session demoScene (pointerAt (Some 10) 0 0) [] (pointerAt (Some 10) 0 0)"

text \<open>
  The flag and the slot agree: when \<open>persistentSelected\<close> is set, some registered
  entity is in the slot.
\<close>

definition selection_consistent :: "world \<Rightarrow> bool" where
  "selection_consistent w =
     (persistentSelected (state w) \<longrightarrow>
        (\<exists>obj. selectedObject (state w) = Some obj \<and> uisInfoOf w obj \<noteq> None))"

text \<open>
  Portals for instantiating the theorems: an application with one broker, an empty
  physics engine, and a portal that was constructed, then connected by
  \<open>manageConnection\<close> and the broker's \<open>onConnect\<close> callback. A ball that arrived
  from a given portal, its body moving with velocity \<open>(1, 0)\<close>, and a world registry
  that materialises every message as object 301.
\<close>

definition demoApp :: app where
  "demoApp = \<lparr> getBrokerByName = (\<lambda>n. if n = ''solace'' then Some 500 else None),
               createConnection = (\<lambda>b. 501) \<rparr>"

definition emptyPhysics :: physics where
  "emptyPhysics = \<lparr> bodies = [], next_body = 0 \<rparr>"

definition connectedPortal :: "objref \<Rightarrow> real \<Rightarrow> portal" where
  "connectedPortal ref rot =
     fst (onConnect (fst (manageConnection demoApp
       (fst (Portal ref ''north'' ''7'' (Some ''solace'') 0 0 rot emptyPhysics)))))"

definition demoEnvelope :: envelope where
  "demoEnvelope = \<lparr> env_config = [(''radius'', ''2'')], env_x = 5, env_y = 6,
                    env_velocity = None, env_rotation = 0, env_angularVelocity = 0,
                    env_guid = [], env_type = [] \<rparr>"

definition demoBall :: "objref option \<Rightarrow> bool \<Rightarrow> world_object" where
  "demoBall cameFrom cooling =
     \<lparr> obj_ref = 300, obj_guid = ''g-300'', obj_constructor_name = ''Ball'',
       obj_color = ''red'', obj_forceTopic = False, obj_topic = None,
       obj_isStatic = False, obj_isCoolingDown = cooling, obj_fromPortal = cameFrom,
       obj_group_rotation_z = 0, obj_getConfig = demoEnvelope \<rparr>"

definition demoBody :: moving_body where
  "demoBody = \<lparr> getLinearVelocity = (1, 0), getAngularVelocity = 0 \<rparr>"

definition demoRegistry :: "envelope \<Rightarrow> string \<Rightarrow> objref option" where
  "demoRegistry env topic = Some 301"

text \<open>
  The connected portal 200 after it was disabled: \<open>manageConnection\<close> closed and
  dropped the connection, and the broker reported the disconnect.
\<close>

definition disabledPortal :: portal where
  "disabledPortal =
     onDisconnect (fst (manageConnection demoApp ((connectedPortal 200 pi)\<lparr>enabled := False\<rparr>)))"

text \<open>A scene graph that places every pivot at the origin.\<close>

definition pivotAtOrigin :: "objref \<Rightarrow> vec3" where
  "pivotAtOrigin n = (0, 0, 0)"

text \<open>Portal 100, freshly constructed in the empty physics engine.\<close>

definition freshPortal :: "portal \<times> physics" where
  "freshPortal = Portal 100 ''north'' ''7'' (Some ''solace'') 0 0 0 emptyPhysics"




section \<open>Properties of the selection manager\<close>

lemma emit_fields [simp]:
  "state (emit c w) = state w"
  "uisInfoOf (emit c w) = uisInfoOf w"
  "materialOf (emit c w) = materialOf w"
  "shownForm (emit c w) = shownForm w"
  "selectAllowedRange (emit c w) = selectAllowedRange w"
  "rotationOf (emit c w) = rotationOf w"
  "calls (emit c w) = calls w @ [c]"
  by (simp_all add: emit_def)

lemma unselectObject_registered:
  "uisInfoOf w obj = Some info \<Longrightarrow>
   unselectObject w (Some obj) =
     (let w3 = emit ClearConfigForm
                 ((if has_onUnselected info then emit (CallOnUnselected obj) w else w)
                    \<lparr>state := (state w)\<lparr>persistentSelected := False, selectedObject := None\<rparr>,
                     shownForm := None\<rparr>)
      in case unselectedMaterial info of None \<Rightarrow> w3
         | Some m \<Rightarrow> w3\<lparr>materialOf := (materialOf w)(obj := Some m)\<rparr>)"
  by (simp add: unselectObject_def Let_def emit_def split: option.splits)

subsection \<open>Unselecting an object that is not the selection\<close>

text \<open>
  Claim C10. For a registered object \<open>obj\<close>, \<open>unselectObject(obj)\<close> clears the
  shared selection state whatever the current selection is: \<open>selectedObject\<close> becomes
  \<open>null\<close>, \<open>persistentSelected\<close> becomes false and the form is hidden. The only
  handler it invokes is \<open>obj\<close>'s own \<open>onUnselected\<close>, and the only material it
  restores is \<open>obj\<close>'s own: an entity other than \<open>obj\<close>, the actual selection
  included, gets no \<open>onUnselected\<close> call and keeps its material.
\<close>

theorem unselectObject_discards_selection:
  assumes "uisInfoOf w obj = Some info"
  shows "selectedObject (state (unselectObject w (Some obj))) = None
       \<and> \<not> persistentSelected (state (unselectObject w (Some obj)))
       \<and> shownForm (unselectObject w (Some obj)) = None
       \<and> calls (unselectObject w (Some obj)) =
           calls w @ (if has_onUnselected info then [CallOnUnselected obj] else []) @ [ClearConfigForm]
       \<and> (\<forall>other. other \<noteq> obj \<longrightarrow>
             CallOnUnselected other \<notin> set (newCalls w (unselectObject w (Some obj)))
           \<and> materialOf (unselectObject w (Some obj)) other = materialOf w other)"
  using assms
  by (simp add: unselectObject_def Let_def emit_def newCalls_def split: option.splits)

text \<open>
  In the small scene object 40 is selected and wears its selected material 6;
  unselecting mesh 10 empties the selection, calls only the handler of mesh 10 and
  leaves material 6 on object 40.
\<close>

theorem unselectObject_discards_selection_witness:
  "uisInfoOf (selectObject demoScene (Some 40)) 10 = Some (portalUisInfo 7)
   \<and> holdsPersistentSelection (selectObject demoScene (Some 40)) 40
   \<and> materialOf (selectObject demoScene (Some 40)) 40 = Some 6
   \<and> selectedObject (state (unselectObject (selectObject demoScene (Some 40)) (Some 10))) = None
   \<and> \<not> persistentSelected (state (unselectObject (selectObject demoScene (Some 40)) (Some 10)))
   \<and> shownForm (unselectObject (selectObject demoScene (Some 40)) (Some 10)) = None
   \<and> newCalls (selectObject demoScene (Some 40))
        (unselectObject (selectObject demoScene (Some 40)) (Some 10))
        = [CallOnUnselected 10, ClearConfigForm]
   \<and> materialOf (unselectObject (selectObject demoScene (Some 40)) (Some 10)) 40 = Some 6"
proof -
  have reg: "uisInfoOf (selectObject demoScene (Some 40)) 10 = Some (portalUisInfo 7)"
    by (simp add: demoScene_def selectObject_def registerObject_def UISelection_def
        portalUisInfo_def fixedInfo_def Let_def emit_def)
  have sel: "holdsPersistentSelection (selectObject demoScene (Some 40)) 40
       \<and> materialOf (selectObject demoScene (Some 40)) 40 = Some 6"
    by (simp add: demoScene_def selectObject_def registerObject_def UISelection_def
        portalUisInfo_def fixedInfo_def Let_def emit_def holdsPersistentSelection_def)
  from unselectObject_discards_selection [OF reg] reg sel show ?thesis
    by (simp add: newCalls_def portalUisInfo_def)
qed

subsection \<open>The small scene, evaluated\<close>

lemma demoScene_eval:
  "state demoScene = \<lparr> selectedObject = None, isDragging = False, posAtMouseDown = None,
                 rotAtMouseDown = None, persistentSelectable = False,
                 persistentSelected = False, prevPos = None, deltaPos = None,
                 ctrlKey = False \<rparr>"
  "selectAllowedRange demoScene = 15"
  "uisInfoOf demoScene 10 = Some (portalUisInfo 7)"
  "uisInfoOf demoScene 20 = Some (portalUisInfo 8)"
  "uisInfoOf demoScene 30 = Some (screwHeadUisInfo 5)"
  "uisInfoOf demoScene 40 = Some fixedInfo"
  "materialOf demoScene = (\<lambda>obj. Some 0)"
  "rotationOf demoScene = (\<lambda>obj. (0, 0, 0))"
  "shownForm demoScene = None"
  "calls demoScene = []"
  by (simp_all add: demoScene_def registerObject_def UISelection_def defaultSelectAllowedRange_def
      portalUisInfo_def screwHeadUisInfo_def fixedInfo_def)

lemma pointerAt_simps [simp]:
  "intersect (pointerAt hit px py) = map_option (\<lambda>obj. (obj, 0)) hit"
  "mousePosGivenZ (pointerAt hit px py) d = (px, py, d)"
  "ev_ctrlKey (pointerAt hit px py) = False"
  by (simp_all add: pointerAt_def)

lemma portalUisInfo_simps [simp]:
  "moveable (portalUisInfo f)" "selectable (portalUisInfo f)" "has_onDown (portalUisInfo f)"
  "has_onMove (portalUisInfo f)" "has_onUp (portalUisInfo f)" "has_onSelected (portalUisInfo f)"
  "has_onUnselected (portalUisInfo f)" "has_onDelete (portalUisInfo f)"
  "selectedMaterial (portalUisInfo f) = None" "configForm (portalUisInfo f) = Some f"
  "unselectedMaterial (portalUisInfo f) = None" "\<not> deleteable (portalUisInfo f)"
  by (simp_all add: portalUisInfo_def)

lemma demoSelected_eval:
  "state demoSelected = \<lparr> selectedObject = Some 10, isDragging = False, posAtMouseDown = Some (0, 0, 0),
                 rotAtMouseDown = Some (0, 0, 0), persistentSelectable = True,
                 persistentSelected = True, prevPos = Some (0, 0, 0), deltaPos = None,
                 ctrlKey = False \<rparr>"
  "selectAllowedRange demoSelected = 15"
  "uisInfoOf demoSelected = uisInfoOf demoScene"
  "materialOf demoSelected = (\<lambda>obj. Some 0)"
  "shownForm demoSelected = Some 7"
  "calls demoSelected = [CallOnDown 10 (0, 0, 0), CallOnSelected 10, ShowConfigForm 7, CallOnUp 10 (0, 0, 0)]"
  by (simp_all add: demoSelected_def session_def onDown_def onUp_def selectObject_def
      demoScene_eval Let_def emit_def vec_z_def)

subsection \<open>When a previous selection is released\<close>

lemma selectObject_calls:
  "\<exists>new. calls (selectObject w objOpt) = calls w @ new \<and> (\<forall>x. CallOnUnselected x \<notin> set new)"
  by (simp add: selectObject_def Let_def emit_def split: option.splits)

lemma onUp_calls:
  "\<exists>new. calls (onUp w e) = calls w @ new \<and> (\<forall>x. CallOnUnselected x \<notin> set new)"
proof -
  obtain new where n: "calls (selectObject w (selectedObject (state w))) = calls w @ new"
     "\<forall>x. CallOnUnselected x \<notin> set new"
    using selectObject_calls by blast
  show ?thesis
    using n by (auto simp add: onUp_def Let_def emit_def split: option.splits)
qed

text \<open>
  Claim C3, as stated, fails. The claim says that a pointer-down on a different
  entity does not release a pre-existing persistent selection at pointer-down time.
  In the small scene mesh 10 holds the persistent selection; the pointer-down on mesh
  20 alone, before any pointer-up, calls \<open>onUnselected\<close> of mesh 10 and clears the
  persistent selection.
\<close>

theorem pointer_down_releases_selection_counterexample:
  "holdsPersistentSelection demoSelected 10
   \<and> \<not> holdsPersistentSelection (onDown demoSelected (pointerAt (Some 20) 0 0)) 10
   \<and> \<not> persistentSelected (state (onDown demoSelected (pointerAt (Some 20) 0 0)))
   \<and> newCalls demoSelected (onDown demoSelected (pointerAt (Some 20) 0 0))
        = [CallOnUnselected 10, ClearConfigForm, CallOnDown 20 (0, 0, 0)]"
  by (simp add: holdsPersistentSelection_def onDown_def demoSelected_eval demoScene_eval
      unselectObject_def Let_def emit_def newCalls_def)

text \<open>
  Claim C3, amended. Let a registered entity \<open>a\<close> hold the persistent selection. A
  pointer-down that hits a different entity releases it at pointer-down time:
  \<open>onUnselected\<close> of \<open>a\<close> is invoked (when present), the selection flags are
  cleared and the form is hidden, all before the \<open>onDown\<close> handler of the entity
  hit. A pointer-down that hits \<open>a\<close> itself or nothing leaves the persistent
  selection with \<open>a\<close> and invokes no \<open>onUnselected\<close>. A pointer-up never invokes
  an \<open>onUnselected\<close> handler: the commit of a selection releases nobody.
\<close>

theorem pointer_down_releases_other_selection:
  assumes "persistentSelected (state w)"
    and "selectedObject (state w) = Some a"
    and "uisInfoOf w a = Some ia"
  shows "(\<forall>b hz. intersect e = Some (b, hz) \<and> b \<noteq> a \<longrightarrow>
            \<not> holdsPersistentSelection (onDown w e) a
          \<and> \<not> persistentSelected (state (onDown w e))
          \<and> newCalls w (onDown w e) =
              (if has_onUnselected ia then [CallOnUnselected a] else []) @ [ClearConfigForm] @
              (case uisInfoOf w b of
                 None \<Rightarrow> []
               | Some ib \<Rightarrow> if has_onDown ib then [CallOnDown b (mousePosGivenZ e hz)] else []))
       \<and> ((intersect e = None \<or> (\<exists>hz. intersect e = Some (a, hz))) \<longrightarrow>
            holdsPersistentSelection (onDown w e) a
          \<and> (\<forall>x. CallOnUnselected x \<notin> set (newCalls w (onDown w e))))
       \<and> (\<forall>v up x. CallOnUnselected x \<notin> set (newCalls v (onUp v up)))"
proof (intro conjI allI impI)
  fix b hz assume h: "intersect e = Some (b, hz) \<and> b \<noteq> a"
  show "\<not> holdsPersistentSelection (onDown w e) a"
    using assms h
    by (simp add: onDown_def unselectObject_registered holdsPersistentSelection_def Let_def
        split: option.splits)
  show "\<not> persistentSelected (state (onDown w e))"
    using assms h
    by (simp add: onDown_def unselectObject_registered Let_def split: option.splits)
  show "newCalls w (onDown w e) =
              (if has_onUnselected ia then [CallOnUnselected a] else []) @ [ClearConfigForm] @
              (case uisInfoOf w b of
                 None \<Rightarrow> []
               | Some ib \<Rightarrow> if has_onDown ib then [CallOnDown b (mousePosGivenZ e hz)] else [])"
    using assms h
    by (simp add: onDown_def unselectObject_registered newCalls_def Let_def split: option.splits)
next
  assume h: "intersect e = None \<or> (\<exists>hz. intersect e = Some (a, hz))"
  show "holdsPersistentSelection (onDown w e) a"
    using assms h
    by (auto simp add: onDown_def holdsPersistentSelection_def Let_def split: option.splits)
  fix x
  show "CallOnUnselected x \<notin> set (newCalls w (onDown w e))"
    using assms h
    by (auto simp add: onDown_def newCalls_def Let_def split: option.splits)
next
  fix v up x
  show "CallOnUnselected x \<notin> set (newCalls v (onUp v up))"
    using onUp_calls [of v up] by (auto simp add: newCalls_def)
qed

theorem pointer_down_releases_other_selection_witness:
  "persistentSelected (state demoSelected)
   \<and> selectedObject (state demoSelected) = Some 10
   \<and> uisInfoOf demoSelected 10 = Some (portalUisInfo 7)
   \<and> intersect (pointerAt (Some 20) 3 4) = Some (20, 0)
   \<and> \<not> holdsPersistentSelection (onDown demoSelected (pointerAt (Some 20) 3 4)) 10
   \<and> newCalls demoSelected (onDown demoSelected (pointerAt (Some 20) 3 4)) =
       [CallOnUnselected 10, ClearConfigForm, CallOnDown 20 (3, 4, 0)]"
proof -
  have h: "persistentSelected (state demoSelected)" "selectedObject (state demoSelected) = Some 10"
    "uisInfoOf demoSelected 10 = Some (portalUisInfo 7)"
    by (simp_all add: demoSelected_eval demoScene_eval)
  from pointer_down_releases_other_selection [OF h, of "pointerAt (Some 20) 3 4"] h
  show ?thesis
    by (simp add: demoSelected_eval demoScene_eval)
qed

subsection \<open>Drag sessions\<close>

lemma vec_telescope: "vec_add (vec_sub a b) (vec_sub c a) = vec_sub c b"
  by (simp add: vec_add_def vec_sub_def vec_x_def vec_y_def vec_z_def)

lemma vec_sub_self: "vec_sub a a = (0, 0, 0)"
  by (simp add: vec_sub_def)

lemma sum_vec_simps [simp]:
  "sum_vec [] = (0, 0, 0)"
  "sum_vec (d # ds) = vec_add d (sum_vec ds)"
  by (simp_all add: sum_vec_def)

lemma deltas_append [simp]: "deltas (xs @ ys) = deltas xs @ deltas ys"
  by (induction xs rule: deltas.induct) simp_all

lemma unselectObject_frame:
  "uisInfoOf (unselectObject w x) = uisInfoOf w"
  "selectAllowedRange (unselectObject w x) = selectAllowedRange w"
  "isDragging (state (unselectObject w x)) = isDragging (state w)"
  by (simp_all add: unselectObject_def Let_def split: option.splits)

lemma unselectObject_calls:
  "\<exists>new. calls (unselectObject w x) = calls w @ new \<and> deltas new = []
     \<and> set new \<subseteq> {ClearConfigForm} \<union> range CallOnUnselected"
  by (auto simp add: unselectObject_def Let_def emit_def split: option.splits)

text \<open>The state a pointer-down on a registered entity leaves.\<close>

lemma onDown_registered:
  assumes "intersect down = Some (obj, hz)" and "uisInfoOf w obj = Some info"
  shows "selectedObject (state (onDown w down)) = Some obj"
    and "uisInfoOf (onDown w down) = uisInfoOf w"
    and "posAtMouseDown (state (onDown w down)) = Some (mousePosGivenZ down hz)"
    and "prevPos (state (onDown w down)) = Some (mousePosGivenZ down hz)"
    and "persistentSelectable (state (onDown w down)) = selectable info"
    and "selectAllowedRange (onDown w down) = selectAllowedRange w"
    and "moveable info \<Longrightarrow> isDragging (state (onDown w down))"
    and "\<exists>new. calls (onDown w down) = calls w @ new \<and> deltas new = []"
proof -
  let ?w1 = "if persistentSelected (state w) \<and> selectedObject (state w) \<noteq> Some obj
             then unselectObject w (selectedObject (state w)) else w"
  have r: "uisInfoOf ?w1 obj = Some info" "uisInfoOf ?w1 = uisInfoOf w"
     "selectAllowedRange ?w1 = selectAllowedRange w"
    using assms by (simp_all add: unselectObject_frame)
  obtain new where n: "calls ?w1 = calls w @ new" "deltas new = []"
    using unselectObject_calls [of w "selectedObject (state w)"] by (cases "persistentSelected (state w) \<and> selectedObject (state w) \<noteq> Some obj") auto
  have d: "onDown w down =
     (let p = mousePosGivenZ down hz;
          s1 = (state ?w1)\<lparr>selectedObject := Some obj,
                                       persistentSelectable := selectable info,
                                       posAtMouseDown := Some p,
                                       rotAtMouseDown := Some (rotationOf ?w1 obj),
                                       prevPos := Some p\<rparr>;
          s2 = (if moveable info then s1\<lparr>isDragging := True\<rparr> else s1);
          w2 = ?w1\<lparr>state := s2\<rparr>
      in if has_onDown info
                     then emit (CallOnDown obj p) (w2\<lparr>state := s2\<lparr>ctrlKey := ev_ctrlKey down\<rparr>\<rparr>)
                     else w2)"
    unfolding onDown_def using assms(1) r(1) by (simp add: Let_def)
  show "selectedObject (state (onDown w down)) = Some obj"
    by (simp add: d Let_def)
  show "uisInfoOf (onDown w down) = uisInfoOf w"
    using r(2) by (simp add: d Let_def)
  show "posAtMouseDown (state (onDown w down)) = Some (mousePosGivenZ down hz)"
    by (simp add: d Let_def)
  show "prevPos (state (onDown w down)) = Some (mousePosGivenZ down hz)"
    by (simp add: d Let_def)
  show "persistentSelectable (state (onDown w down)) = selectable info"
    by (simp add: d Let_def)
  show "selectAllowedRange (onDown w down) = selectAllowedRange w"
    using r(3) by (simp add: d Let_def)
  show "moveable info \<Longrightarrow> isDragging (state (onDown w down))"
    by (simp add: d Let_def)
  show "\<exists>new. calls (onDown w down) = calls w @ new \<and> deltas new = []"
    using n by (simp add: d Let_def)
qed

text \<open>One pointer-move while an entity is being dragged.\<close>

lemma onMove_dragging:
  assumes "isDragging (state w)" and "selectedObject (state w) = Some obj"
    and "uisInfoOf w obj = Some info" and "posAtMouseDown (state w) = Some p0"
    and "prevPos (state w) = Some pp"
  shows "onMove w m =
     (let pos = pointerPos m p0;
          w1 = (if selectable info \<and> planarDistance pos p0 > selectAllowedRange w
                then w\<lparr>state := (state w)\<lparr>persistentSelectable := False\<rparr>\<rparr> else w)
      in if has_onMove info
         then (emit (CallOnMove obj pos (vec_sub pos pp))
                 (w1\<lparr>state := (state w1)\<lparr>deltaPos := Some (vec_sub pos pp),
                                            ctrlKey := ev_ctrlKey m\<rparr>\<rparr>))
               \<lparr>state := (state w1)\<lparr>deltaPos := Some (vec_sub pos pp),
                                            ctrlKey := ev_ctrlKey m, prevPos := Some pos\<rparr>\<rparr>
         else w1)"
  using assms
  by (simp add: onMove_def Let_def pointerPos_def planarDistance_def emit_def)

lemma moves_not_dragging:
  "\<not> isDragging (state w) \<Longrightarrow> foldl onMove w ms = w"
  by (induction ms) (simp_all add: onMove_def)

text \<open>A run of pointer-moves while an entity is being dragged.\<close>

lemma moves_dragging:
  assumes "isDragging (state w)" and "selectedObject (state w) = Some obj"
    and "uisInfoOf w obj = Some info" and "posAtMouseDown (state w) = Some p0"
    and "prevPos (state w) = Some pp"
  shows "selectedObject (state (foldl onMove w ms)) = Some obj
       \<and> uisInfoOf (foldl onMove w ms) = uisInfoOf w
       \<and> posAtMouseDown (state (foldl onMove w ms)) = Some p0
       \<and> persistentSelected (state (foldl onMove w ms)) = persistentSelected (state w)
       \<and> selectAllowedRange (foldl onMove w ms) = selectAllowedRange w
       \<and> persistentSelectable (state (foldl onMove w ms)) =
           (persistentSelectable (state w) \<and>
            \<not> (selectable info \<and>
               (\<exists>m \<in> set ms. planarDistance (pointerPos m p0) p0 > selectAllowedRange w)))
       \<and> (\<exists>new. calls (foldl onMove w ms) = calls w @ new
             \<and> (\<forall>x. CallOnUnselected x \<notin> set new)
             \<and> (has_onMove info \<longrightarrow>
                  sum_vec (deltas new) = vec_sub (last (pp # map (\<lambda>m. pointerPos m p0) ms)) pp))"
  using assms
proof (induction ms arbitrary: w pp)
  case Nil
  then show ?case by (simp add: vec_sub_self)
next
  case (Cons m ms)
  let ?pos = "pointerPos m p0"
  let ?w1 = "onMove w m"
  let ?pp1 = "if has_onMove info then ?pos else pp"
  note step = onMove_dragging [OF Cons.prems, of m]
  have a: "isDragging (state ?w1)" "selectedObject (state ?w1) = Some obj"
    "uisInfoOf ?w1 obj = Some info" "posAtMouseDown (state ?w1) = Some p0"
    "prevPos (state ?w1) = Some ?pp1"
    using Cons.prems by (simp_all add: step Let_def)
  have b: "uisInfoOf ?w1 = uisInfoOf w" "selectAllowedRange ?w1 = selectAllowedRange w"
    "persistentSelected (state ?w1) = persistentSelected (state w)"
    "persistentSelectable (state ?w1) =
       (persistentSelectable (state w) \<and>
        \<not> (selectable info \<and> planarDistance ?pos p0 > selectAllowedRange w))"
    "calls ?w1 = calls w @ (if has_onMove info then [CallOnMove obj ?pos (vec_sub ?pos pp)] else [])"
    by (auto simp add: step Let_def)
  from Cons.IH [OF a] obtain new where ih:
    "selectedObject (state (foldl onMove ?w1 ms)) = Some obj"
    "uisInfoOf (foldl onMove ?w1 ms) = uisInfoOf ?w1"
    "posAtMouseDown (state (foldl onMove ?w1 ms)) = Some p0"
    "persistentSelected (state (foldl onMove ?w1 ms)) = persistentSelected (state ?w1)"
    "selectAllowedRange (foldl onMove ?w1 ms) = selectAllowedRange ?w1"
    "persistentSelectable (state (foldl onMove ?w1 ms)) =
           (persistentSelectable (state ?w1) \<and>
            \<not> (selectable info \<and>
               (\<exists>m \<in> set ms. planarDistance (pointerPos m p0) p0 > selectAllowedRange ?w1)))"
    "calls (foldl onMove ?w1 ms) = calls ?w1 @ new"
    "\<forall>x. CallOnUnselected x \<notin> set new"
    "has_onMove info \<longrightarrow>
        sum_vec (deltas new) = vec_sub (last (?pp1 # map (\<lambda>m. pointerPos m p0) ms)) ?pp1"
    by blast
  have tele: "has_onMove info \<longrightarrow>
      sum_vec (deltas ([CallOnMove obj ?pos (vec_sub ?pos pp)] @ new)) =
        vec_sub (last (pp # map (\<lambda>m. pointerPos m p0) (m # ms))) pp"
    using ih(9) by (auto simp add: vec_telescope)
  show ?case
    apply (simp only: foldl_Cons)
    apply (intro conjI)
          apply (simp add: ih(1))
         apply (simp add: ih(2) b(1))
        apply (simp add: ih(3))
       apply (simp add: ih(4) b(3))
      apply (simp add: ih(5) b(2))
     apply (simp add: ih(6) b(4) b(2))
     apply blast
    apply (rule exI [of _ "(if has_onMove info then [CallOnMove obj ?pos (vec_sub ?pos pp)] else []) @ new"])
    using tele ih(8) apply (simp add: ih(7) b(5))
    done
qed


lemma selectObject_registered:
  assumes "uisInfoOf w obj = Some info"
  shows "state (selectObject w (Some obj)) =
           (state w)\<lparr>selectedObject := Some obj, persistentSelected := True\<rparr>"
    and "\<exists>new. calls (selectObject w (Some obj)) = calls w @ new \<and> deltas new = []
           \<and> (\<forall>x. CallOnUnselected x \<notin> set new)"
  using assms
  by (simp_all add: selectObject_def Let_def emit_def split: option.splits)

text \<open>A pointer-up after a pointer-down stored its position.\<close>

lemma onUp_armed:
  assumes "selectedObject (state w) = Some obj" and "uisInfoOf w obj = Some info"
    and "posAtMouseDown (state w) = Some p0"
  shows "selectable info \<and> persistentSelectable (state w) \<Longrightarrow>
           holdsPersistentSelection (onUp w up) obj"
    and "\<not> (selectable info \<and> persistentSelectable (state w)) \<Longrightarrow>
           selectedObject (state (onUp w up)) = None \<and> \<not> persistentSelected (state (onUp w up))"
    and "\<exists>new. calls (onUp w up) = calls w @ new \<and> deltas new = []
           \<and> (\<forall>x. CallOnUnselected x \<notin> set new)"
proof -
  let ?w1 = "if selectable info \<and> persistentSelectable (state w)
             then selectObject w (Some obj)
             else w\<lparr>state := (state w)\<lparr>selectedObject := None, persistentSelected := False\<rparr>\<rparr>"
  have u: "onUp w up =
     (if has_onUp info
      then (emit (CallOnUp obj (mousePosGivenZ up (vec_z p0)))
              (?w1\<lparr>state := (state ?w1)\<lparr>ctrlKey := ev_ctrlKey up\<rparr>\<rparr>))
           \<lparr>state := (state ?w1)\<lparr>ctrlKey := ev_ctrlKey up, isDragging := False\<rparr>\<rparr>
      else ?w1\<lparr>state := (state ?w1)\<lparr>isDragging := False\<rparr>\<rparr>)"
    using assms
    by (simp add: onUp_def Let_def selectObject_registered(1) emit_def)
  obtain new where n: "calls ?w1 = calls w @ new" "deltas new = []"
    "\<forall>x. CallOnUnselected x \<notin> set new"
    using selectObject_registered(2) [OF assms(2)] by (cases "selectable info \<and> persistentSelectable (state w)") auto
  show "selectable info \<and> persistentSelectable (state w) \<Longrightarrow>
           holdsPersistentSelection (onUp w up) obj"
    using assms(2) by (simp add: u holdsPersistentSelection_def selectObject_registered(1))
  show "\<not> (selectable info \<and> persistentSelectable (state w)) \<Longrightarrow>
           selectedObject (state (onUp w up)) = None \<and> \<not> persistentSelected (state (onUp w up))"
    by (auto simp add: u)
  show "\<exists>new. calls (onUp w up) = calls w @ new \<and> deltas new = []
           \<and> (\<forall>x. CallOnUnselected x \<notin> set new)"
    using n by (auto simp add: u)
qed

text \<open>The moves of a session, whether or not the entity is being dragged.\<close>

lemma session_moves:
  assumes hit: "intersect down = Some (obj, hz)" and reg: "uisInfoOf w obj = Some info"
  shows "selectedObject (state (foldl onMove (onDown w down) ms)) = Some obj"
    and "uisInfoOf (foldl onMove (onDown w down) ms) obj = Some info"
    and "posAtMouseDown (state (foldl onMove (onDown w down) ms)) = Some (mousePosGivenZ down hz)"
    and "\<forall>m \<in> set ms. planarDistance (pointerPos m (mousePosGivenZ down hz)) (mousePosGivenZ down hz)
            \<le> selectAllowedRange w \<Longrightarrow>
         persistentSelectable (state (foldl onMove (onDown w down) ms)) = selectable info"
    and "\<exists>new. calls (foldl onMove (onDown w down) ms) = calls (onDown w down) @ new
           \<and> (\<forall>x. CallOnUnselected x \<notin> set new)"
proof -
  let ?w1 = "onDown w down"
  let ?p0 = "mousePosGivenZ down hz"
  note d = onDown_registered [OF hit reg]
  have all: "selectedObject (state (foldl onMove ?w1 ms)) = Some obj
     \<and> uisInfoOf (foldl onMove ?w1 ms) obj = Some info
     \<and> posAtMouseDown (state (foldl onMove ?w1 ms)) = Some ?p0
     \<and> ((\<forall>m \<in> set ms. planarDistance (pointerPos m ?p0) ?p0 \<le> selectAllowedRange w) \<longrightarrow>
         persistentSelectable (state (foldl onMove ?w1 ms)) = selectable info)
     \<and> (\<exists>new. calls (foldl onMove ?w1 ms) = calls ?w1 @ new
           \<and> (\<forall>x. CallOnUnselected x \<notin> set new))"
  proof (cases "isDragging (state ?w1)")
    case False
    then show ?thesis
      using d reg by (simp add: moves_not_dragging)
  next
    case True
    have r1: "uisInfoOf ?w1 obj = Some info" using d(2) reg by simp
    from moves_dragging [OF True d(1) r1 d(3) d(4), of ms]
    show ?thesis
      using d(2) d(5) d(6) reg by (auto simp add: not_less [symmetric])
  qed
  from all show "selectedObject (state (foldl onMove (onDown w down) ms)) = Some obj" by simp
  from all show "uisInfoOf (foldl onMove (onDown w down) ms) obj = Some info" by simp
  from all show "posAtMouseDown (state (foldl onMove (onDown w down) ms)) = Some (mousePosGivenZ down hz)" by simp
  from all show "\<forall>m \<in> set ms. planarDistance (pointerPos m (mousePosGivenZ down hz)) (mousePosGivenZ down hz)
            \<le> selectAllowedRange w \<Longrightarrow>
         persistentSelectable (state (foldl onMove (onDown w down) ms)) = selectable info" by simp
  from all show "\<exists>new. calls (foldl onMove (onDown w down) ms) = calls (onDown w down) @ new
           \<and> (\<forall>x. CallOnUnselected x \<notin> set new)" by simp
qed

lemma onDown_same_calls:
  assumes "intersect down = Some (obj, hz)" and "uisInfoOf w obj = Some info"
    and "selectedObject (state w) = Some obj"
  shows "CallOnUnselected x \<notin> set (newCalls w (onDown w down))"
  using assms by (simp add: onDown_def newCalls_def Let_def)

text \<open>
  Claim C6, as stated, fails. The claim says that the prior persistent selection of
  a short drag session received exactly one \<open>onUnselected\<close> call. In the small
  scene mesh 10 holds the persistent selection; a click on mesh 10 itself leaves it
  selected and calls \<open>onUnselected\<close> of nobody.
\<close>

theorem reclick_gets_no_unselect_counterexample:
  "holdsPersistentSelection demoSelected 10
   \<and> holdsPersistentSelection
        (session demoSelected (pointerAt (Some 10) 0 0) [] (pointerAt (Some 10) 0 0)) 10
   \<and> count_list (newCalls demoSelected
        (session demoSelected (pointerAt (Some 10) 0 0) [] (pointerAt (Some 10) 0 0)))
        (CallOnUnselected 10) = 0
   \<and> newCalls demoSelected
        (session demoSelected (pointerAt (Some 10) 0 0) [] (pointerAt (Some 10) 0 0))
      = [CallOnDown 10 (0, 0, 0), CallOnSelected 10, ShowConfigForm 7, CallOnUp 10 (0, 0, 0)]"
  by (simp add: holdsPersistentSelection_def session_def onDown_def onUp_def selectObject_def
      demoSelected_eval demoScene_eval Let_def emit_def newCalls_def vec_z_def)

text \<open>
  Claim C6, amended. Take a drag session whose pointer-down hits a registered,
  selectable entity and whose pointer-moves all stay within the allowed range of the
  pointer-down position. Immediately after the pointer-up the entity holds the
  persistent selection. A different registered entity that held the persistent
  selection before, and has an \<open>onUnselected\<close> handler, receives exactly one
  \<open>onUnselected\<close> call; it receives it during the pointer-down, when no new
  selection is committed yet, and none in the rest of the session. When the entity
  hit already held the persistent selection itself, the session invokes no
  \<open>onUnselected\<close> handler at all.
\<close>

theorem short_drag_commits_selection:
  assumes hit: "intersect down = Some (obj, hz)"
    and reg: "uisInfoOf w obj = Some info"
    and sel: "selectable info"
    and near: "\<forall>m \<in> set moves.
        planarDistance (pointerPos m (mousePosGivenZ down hz)) (mousePosGivenZ down hz)
          \<le> selectAllowedRange w"
  shows "holdsPersistentSelection (session w down moves up) obj
       \<and> (\<forall>a ia. persistentSelected (state w) \<and> selectedObject (state w) = Some a \<and> a \<noteq> obj
              \<and> uisInfoOf w a = Some ia \<and> has_onUnselected ia \<longrightarrow>
            count_list (newCalls w (onDown w down)) (CallOnUnselected a) = 1
          \<and> \<not> persistentSelected (state (onDown w down))
          \<and> CallOnUnselected a \<notin> set (newCalls (onDown w down) (session w down moves up)))
       \<and> (persistentSelected (state w) \<and> selectedObject (state w) = Some obj \<longrightarrow>
            (\<forall>x. CallOnUnselected x \<notin> set (newCalls w (session w down moves up))))"
proof (intro conjI allI impI)
  let ?w2 = "foldl onMove (onDown w down) moves"
  note m = session_moves [OF hit reg, of moves]
  have ps: "persistentSelectable (state ?w2)" using m(4) [OF near] sel by simp
  show "holdsPersistentSelection (session w down moves up) obj"
    unfolding session_def using onUp_armed(1) [OF m(1) m(2) m(3)] sel ps by simp
  obtain n1 where n1: "calls ?w2 = calls (onDown w down) @ n1" "\<forall>x. CallOnUnselected x \<notin> set n1"
    using m(5) by blast
  obtain n2 where n2: "calls (onUp ?w2 up) = calls ?w2 @ n2" "\<forall>x. CallOnUnselected x \<notin> set n2"
    using onUp_armed(3) [OF m(1) m(2) m(3)] by blast
  {
    fix a ia
    assume h: "persistentSelected (state w) \<and> selectedObject (state w) = Some a \<and> a \<noteq> obj
              \<and> uisInfoOf w a = Some ia \<and> has_onUnselected ia"
    show "count_list (newCalls w (onDown w down)) (CallOnUnselected a) = 1"
      using h hit reg
      by (simp add: onDown_def unselectObject_registered newCalls_def Let_def split: option.splits)
    show "\<not> persistentSelected (state (onDown w down))"
      using h hit reg
      by (simp add: onDown_def unselectObject_registered Let_def split: option.splits)
    show "CallOnUnselected a \<notin> set (newCalls (onDown w down) (session w down moves up))"
      using n1 n2 by (simp add: session_def newCalls_def)
  }
  {
    fix x
    assume h: "persistentSelected (state w) \<and> selectedObject (state w) = Some obj"
    obtain nd where nd: "calls (onDown w down) = calls w @ nd"
      using onDown_registered(8) [OF hit reg] by blast
    have "CallOnUnselected x \<notin> set nd"
      using onDown_same_calls [OF hit reg, of x] h nd by (simp add: newCalls_def)
    then show "CallOnUnselected x \<notin> set (newCalls w (session w down moves up))"
      using nd n1 n2 by (simp add: session_def newCalls_def)
  }
qed

lemma sqrt_25: "sqrt 25 = 5"
  by (rule real_sqrt_unique) simp_all

lemma sqrt_2500: "sqrt 2500 = 50"
  by (rule real_sqrt_unique) simp_all

lemma planarDistance_3_4: "planarDistance (3, 4, z1) (0, 0, z2) = 5"
  by (simp add: planarDistance_def vec_x_def vec_y_def sqrt_25)

lemma planarDistance_30_40: "planarDistance (30, 40, z1) (0, 0, z2) = 50"
  by (simp add: planarDistance_def vec_x_def vec_y_def sqrt_2500)

text \<open>
  In the small scene with mesh 10 selected: down on mesh 20, one move of distance 5,
  up. Mesh 20 is selected and mesh 10 got its single \<open>onUnselected\<close> call.
\<close>

theorem short_drag_commits_selection_witness:
  "intersect (pointerAt (Some 20) 0 0) = Some (20, 0)
   \<and> uisInfoOf demoSelected 20 = Some (portalUisInfo 8)
   \<and> selectable (portalUisInfo 8)
   \<and> planarDistance (pointerPos (pointerAt (Some 20) 3 4) (0, 0, 0)) (0, 0, 0)
        \<le> selectAllowedRange demoSelected
   \<and> holdsPersistentSelection demoSelected 10
   \<and> holdsPersistentSelection
        (session demoSelected (pointerAt (Some 20) 0 0) [pointerAt (Some 20) 3 4]
           (pointerAt (Some 20) 3 4)) 20
   \<and> count_list (newCalls demoSelected (onDown demoSelected (pointerAt (Some 20) 0 0)))
        (CallOnUnselected 10) = 1"
proof -
  have h: "intersect (pointerAt (Some 20) 0 0) = Some (20, 0)"
    "uisInfoOf demoSelected 20 = Some (portalUisInfo 8)"
    "selectable (portalUisInfo 8)"
    by (simp_all add: demoSelected_eval demoScene_eval)
  have near: "\<forall>m \<in> set [pointerAt (Some 20) 3 4].
        planarDistance (pointerPos m (mousePosGivenZ (pointerAt (Some 20) 0 0) 0))
          (mousePosGivenZ (pointerAt (Some 20) 0 0) 0) \<le> selectAllowedRange demoSelected"
    by (simp add: pointerPos_def planarDistance_3_4 demoSelected_eval)
  have prior: "holdsPersistentSelection demoSelected 10"
    "uisInfoOf demoSelected 10 = Some (portalUisInfo 7)"
    by (simp_all add: holdsPersistentSelection_def demoSelected_eval demoScene_eval)
  from short_drag_commits_selection [OF h near, of "pointerAt (Some 20) 3 4"] h prior
  show ?thesis
    by (simp add: pointerPos_def planarDistance_3_4 demoSelected_eval holdsPersistentSelection_def)
qed

text \<open>
  Claim C7, amended. Take a drag session whose pointer-down hits a registered,
  moveable entity. If some pointer-move of the session lies farther than the allowed
  range from the pointer-down position, no persistent selection results: after the
  pointer-up the slot is empty and \<open>persistentSelected\<close> is false. If the entity
  has an \<open>onMove\<close> handler, the deltas passed to it sum to the position of the last
  pointer-move minus the position at pointer-down (to zero when there was no
  pointer-move); the position of the pointer-up takes no part.
\<close>

theorem long_drag_and_delta_telescoping:
  assumes hit: "intersect down = Some (obj, hz)"
    and reg: "uisInfoOf w obj = Some info"
    and mv: "moveable info"
  shows "((\<exists>m \<in> set moves.
             planarDistance (pointerPos m (mousePosGivenZ down hz)) (mousePosGivenZ down hz)
               > selectAllowedRange w) \<longrightarrow>
            selectedObject (state (session w down moves up)) = None
          \<and> \<not> persistentSelected (state (session w down moves up)))
       \<and> (has_onMove info \<longrightarrow>
            sum_vec (deltas (newCalls w (session w down moves up))) =
              vec_sub (last (mousePosGivenZ down hz #
                             map (\<lambda>m. pointerPos m (mousePosGivenZ down hz)) moves))
                      (mousePosGivenZ down hz))"
proof -
  let ?w1 = "onDown w down"
  let ?p0 = "mousePosGivenZ down hz"
  let ?w2 = "foldl onMove ?w1 moves"
  note d = onDown_registered [OF hit reg]
  have r1: "uisInfoOf ?w1 obj = Some info" using d(2) reg by simp
  have dr: "isDragging (state ?w1)" using d(7) mv by simp
  note mvs = moves_dragging [OF dr d(1) r1 d(3) d(4), of moves]
  have a: "selectedObject (state ?w2) = Some obj" "uisInfoOf ?w2 obj = Some info"
    "posAtMouseDown (state ?w2) = Some ?p0"
    using mvs r1 by simp_all
  obtain nd where nd: "calls ?w1 = calls w @ nd" "deltas nd = []"
    using d(8) by blast
  obtain nm where nm: "calls ?w2 = calls ?w1 @ nm"
    "has_onMove info \<longrightarrow>
       sum_vec (deltas nm) = vec_sub (last (?p0 # map (\<lambda>m. pointerPos m ?p0) moves)) ?p0"
    using mvs by blast
  obtain nu where nu: "calls (onUp ?w2 up) = calls ?w2 @ nu" "deltas nu = []"
    using onUp_armed(3) [OF a] by blast
  have far: "(\<exists>m \<in> set moves. planarDistance (pointerPos m ?p0) ?p0 > selectAllowedRange w) \<longrightarrow>
      \<not> (selectable info \<and> persistentSelectable (state ?w2))"
    using mvs d(6) by auto
  have one: "(\<exists>m \<in> set moves. planarDistance (pointerPos m ?p0) ?p0 > selectAllowedRange w) \<longrightarrow>
            selectedObject (state (session w down moves up)) = None
          \<and> \<not> persistentSelected (state (session w down moves up))"
    unfolding session_def using far onUp_armed(2) [OF a, of up] by blast
  have two: "has_onMove info \<longrightarrow>
            sum_vec (deltas (newCalls w (session w down moves up))) =
              vec_sub (last (?p0 # map (\<lambda>m. pointerPos m ?p0) moves)) ?p0"
    using nd nm nu by (simp add: session_def newCalls_def)
  from one two show ?thesis by blast
qed

text \<open>
  In the small scene: down on mesh 10 at the origin, moves to (3, 4) and (30, 40), up.
  Nothing is selected and the deltas sum to (30, 40, 0).
\<close>

theorem long_drag_and_delta_telescoping_witness:
  "intersect (pointerAt (Some 10) 0 0) = Some (10, 0)
   \<and> uisInfoOf demoScene 10 = Some (portalUisInfo 7)
   \<and> moveable (portalUisInfo 7) \<and> has_onMove (portalUisInfo 7)
   \<and> planarDistance (pointerPos (pointerAt None 30 40) (0, 0, 0)) (0, 0, 0)
        > selectAllowedRange demoScene
   \<and> selectedObject (state (session demoScene (pointerAt (Some 10) 0 0)
        [pointerAt (Some 10) 3 4, pointerAt None 30 40] (pointerAt None 30 40))) = None
   \<and> \<not> persistentSelected (state (session demoScene (pointerAt (Some 10) 0 0)
        [pointerAt (Some 10) 3 4, pointerAt None 30 40] (pointerAt None 30 40)))
   \<and> sum_vec (deltas (newCalls demoScene (session demoScene (pointerAt (Some 10) 0 0)
        [pointerAt (Some 10) 3 4, pointerAt None 30 40] (pointerAt None 30 40))))
       = (30, 40, 0)"
proof -
  have h: "intersect (pointerAt (Some 10) 0 0) = Some (10, 0)"
    "uisInfoOf demoScene 10 = Some (portalUisInfo 7)"
    "moveable (portalUisInfo 7)"
    by (simp_all add: demoScene_eval)
  from long_drag_and_delta_telescoping [OF h,
      of "[pointerAt (Some 10) 3 4, pointerAt None 30 40]" "pointerAt None 30 40"] h
  show ?thesis
    by (simp add: pointerPos_def planarDistance_3_4 planarDistance_30_40 demoScene_eval
        vec_sub_def vec_x_def vec_y_def vec_z_def)
qed

text \<open>
  Claim C7, as stated, fails. The claim says that the deltas passed to \<open>onMove\<close>
  sum to the position at pointer-up minus the position at pointer-down, and that a
  session whose displacement exceeds the range leaves no persistent selection. In
  the small scene: down on mesh 10 at the origin, one move to (3, 4), up at (30, 40).
  The deltas sum to (3, 4, 0), not to (30, 40, 0), and mesh 10 is selected although
  the pointer-up lies 50 away, beyond the range of 15: only pointer-moves are measured
  and only pointer-moves produce deltas.
\<close>

theorem delta_sum_stops_at_last_move_counterexample:
  "sum_vec (deltas (newCalls demoScene (session demoScene (pointerAt (Some 10) 0 0)
        [pointerAt (Some 10) 3 4] (pointerAt None 30 40)))) = (3, 4, 0)
   \<and> vec_sub (pointerPos (pointerAt None 30 40) (0, 0, 0)) (0, 0, 0) = (30, 40, 0)
   \<and> sum_vec (deltas (newCalls demoScene (session demoScene (pointerAt (Some 10) 0 0)
        [pointerAt (Some 10) 3 4] (pointerAt None 30 40))))
       \<noteq> vec_sub (pointerPos (pointerAt None 30 40) (0, 0, 0)) (0, 0, 0)
   \<and> planarDistance (pointerPos (pointerAt None 30 40) (0, 0, 0)) (0, 0, 0)
        > selectAllowedRange demoScene
   \<and> holdsPersistentSelection (session demoScene (pointerAt (Some 10) 0 0)
        [pointerAt (Some 10) 3 4] (pointerAt None 30 40)) 10"
  by (simp add: session_def onDown_def onMove_def onUp_def selectObject_def demoScene_eval
      Let_def emit_def newCalls_def pointerPos_def planarDistance_30_40 sqrt_25
      holdsPersistentSelection_def vec_sub_def vec_add_def vec_x_def vec_y_def vec_z_def)

subsection \<open>One selection at a time\<close>

lemma card_slot: "card {obj. (x :: objref option) = Some obj} \<le> 1"
proof (cases x)
  case None
  then show ?thesis by simp
next
  case (Some a)
  then have "{obj. x = Some obj} = {a}" by auto
  then show ?thesis by simp
qed

lemma card_flagged_slot: "card {obj. b \<and> (x :: objref option) = Some obj} \<le> 1"
proof (cases b)
  case True
  then show ?thesis using card_slot [of x] by simp
next
  case False
  then show ?thesis by simp
qed

lemma consistent_unselect:
  "selection_consistent w \<Longrightarrow> selection_consistent (unselectObject w x)"
  by (auto simp add: selection_consistent_def unselectObject_def Let_def split: option.splits)

lemma consistent_select:
  "selection_consistent w \<Longrightarrow> selection_consistent (selectObject w x)"
  by (auto simp add: selection_consistent_def selectObject_def Let_def split: option.splits)

lemma cleared_unselect:
  "selection_consistent w \<Longrightarrow> persistentSelected (state w) \<Longrightarrow>
   \<not> persistentSelected (state (unselectObject w (selectedObject (state w))))"
  by (auto simp add: selection_consistent_def unselectObject_def Let_def split: option.splits)

lemma consistent_onDown:
  assumes "selection_consistent w" shows "selection_consistent (onDown w e)"
proof (cases "intersect e")
  case None
  then show ?thesis using assms by (simp add: onDown_def)
next
  case (Some hit)
  obtain obj hz where hit: "hit = (obj, hz)" by (cases hit)
  let ?w1 = "if persistentSelected (state w) \<and> selectedObject (state w) \<noteq> Some obj
             then unselectObject w (selectedObject (state w)) else w"
  have c1: "selection_consistent ?w1" using assms consistent_unselect by simp
  have p1: "persistentSelected (state ?w1) \<longrightarrow> selectedObject (state ?w1) = Some obj"
    using assms cleared_unselect by (auto simp add: selection_consistent_def)
  show ?thesis
  proof (cases "uisInfoOf ?w1 obj")
    case None
    then show ?thesis using c1 Some hit by (simp add: onDown_def Let_def)
  next
    case (Some info)
    have "onDown w e =
     (let p = mousePosGivenZ e hz;
          s1 = (state ?w1)\<lparr>selectedObject := Some obj,
                                       persistentSelectable := selectable info,
                                       posAtMouseDown := Some p,
                                       rotAtMouseDown := Some (rotationOf ?w1 obj),
                                       prevPos := Some p\<rparr>;
          s2 = (if moveable info then s1\<lparr>isDragging := True\<rparr> else s1);
          w2 = ?w1\<lparr>state := s2\<rparr>
      in if has_onDown info
                     then emit (CallOnDown obj p) (w2\<lparr>state := s2\<lparr>ctrlKey := ev_ctrlKey e\<rparr>\<rparr>)
                     else w2)"
      unfolding onDown_def using \<open>intersect e = Some hit\<close> hit Some by (simp add: Let_def)
    then show ?thesis
      using Some by (simp add: selection_consistent_def Let_def)
  qed
qed

lemma consistent_onMove:
  "selection_consistent w \<Longrightarrow> selection_consistent (onMove w e)"
  by (auto simp add: selection_consistent_def onMove_def Let_def split: option.splits)

lemma consistent_frame:
  "persistentSelected (state v) = persistentSelected (state w) \<Longrightarrow>
   selectedObject (state v) = selectedObject (state w) \<Longrightarrow>
   uisInfoOf v = uisInfoOf w \<Longrightarrow>
   selection_consistent w \<Longrightarrow> selection_consistent v"
  by (simp add: selection_consistent_def)

lemma consistent_onUp:
  assumes "selection_consistent w" shows "selection_consistent (onUp w e)"
proof (cases "selectedObject (state w)")
  case None
  then have "onUp w e = w\<lparr>state := (state w)\<lparr>isDragging := False\<rparr>\<rparr>"
    by (simp add: onUp_def)
  then show ?thesis using assms by (simp add: selection_consistent_def)
next
  case (Some obj)
  show ?thesis
  proof (cases "uisInfoOf w obj")
    case None
    then have "onUp w e = w\<lparr>state := (state w)\<lparr>isDragging := False\<rparr>\<rparr>"
      using Some by (simp add: onUp_def)
    then show ?thesis using assms by (simp add: selection_consistent_def)
  next
    case (Some info)
    define w1 where "w1 = (if selectable info \<and> persistentSelectable (state w)
               then selectObject w (Some obj)
               else w\<lparr>state := (state w)\<lparr>selectedObject := None,
                                           persistentSelected := False\<rparr>\<rparr>)"
    have c1: "selection_consistent w1"
      using consistent_select [OF assms, of "Some obj"]
      by (simp add: w1_def selection_consistent_def)
    have u: "onUp w e =
       (if has_onUp info
        then (case posAtMouseDown (state w1) of
                None \<Rightarrow> emit ThrowTypeError w1
              | Some p0 \<Rightarrow>
                  (emit (CallOnUp obj (mousePosGivenZ e (vec_z p0)))
                     (w1\<lparr>state := (state w1)\<lparr>ctrlKey := ev_ctrlKey e\<rparr>\<rparr>))
                  \<lparr>state := (state w1)\<lparr>ctrlKey := ev_ctrlKey e, isDragging := False\<rparr>\<rparr>)
        else w1\<lparr>state := (state w1)\<lparr>isDragging := False\<rparr>\<rparr>)"
      using Some \<open>selectedObject (state w) = Some obj\<close>
      by (simp add: onUp_def Let_def w1_def split: option.splits)
    have "persistentSelected (state (onUp w e)) = persistentSelected (state w1)
        \<and> selectedObject (state (onUp w e)) = selectedObject (state w1)
        \<and> uisInfoOf (onUp w e) = uisInfoOf w1"
      unfolding u by (cases "posAtMouseDown (state w1)") simp_all
    then show ?thesis using c1 consistent_frame by blast
  qed
qed

lemma consistent_delete:
  "selection_consistent w \<Longrightarrow> selection_consistent (deleteSelectedObject w force)"
  using consistent_unselect [of w]
  by (auto simp add: deleteSelectedObject_def Let_def selection_consistent_def split: option.splits)

lemma consistent_step:
  "selection_consistent w \<Longrightarrow> selection_consistent (ui_step w x)"
  by (cases x) (simp_all add: consistent_onDown consistent_onMove consistent_onUp
      consistent_select consistent_unselect consistent_delete)

lemma consistent_run:
  "selection_consistent w \<Longrightarrow> selection_consistent (ui_run w ops)"
  unfolding ui_run_def
  by (induction ops arbitrary: w) (simp_all add: consistent_step)



text \<open>
  The slot itself cannot hold two entities: in every world at most one entity is in
  the \<open>selectedObject\<close> slot, and at most one is in it with \<open>persistentSelected\<close>
  set.
\<close>

lemma slot_holds_at_most_one:
  "card {obj. holdsPersistentSelection w obj} \<le> 1 \<and> card {obj. occupiesSlot w obj} \<le> 1"
  unfolding holdsPersistentSelection_def occupiesSlot_def
  using card_slot card_flagged_slot by blast

lemma fixedInfo_simps [simp]:
  "\<not> moveable fixedInfo" "selectable fixedInfo" "has_onSelected fixedInfo"
  "has_onUnselected fixedInfo" "selectedMaterial fixedInfo = Some 6"
  "configForm fixedInfo = Some 9" "\<not> deleteable fixedInfo"
  by (simp_all add: fixedInfo_def portalUisInfo_def)




section \<open>Properties of the portal\<close>

subsection \<open>The sample portals, evaluated\<close>

lemma createPortal_syncs_rotation:
  "group_rotation_z (fst (createPortal s)) = rotation (fst (createPortal s))"
  by (simp add: createPortal_def split: prod.splits)

lemma reDraw_syncs_rotation:
  "group_rotation_z (fst (reDraw s)) = rotation (fst (reDraw s))"
  by (simp add: reDraw_def createPortal_syncs_rotation)

lemma connectedPortal_eval:
  "self (connectedPortal ref rot) = ref"
  "rotation (connectedPortal ref rot) = rot"
  "group_rotation_z (connectedPortal ref rot) = rot"
  "portal_x (connectedPortal ref rot) = 0"
  "portal_y (connectedPortal ref rot) = 0"
  "portal_name (connectedPortal ref rot) = ''north''"
  "portalId (connectedPortal ref rot) = ''7''"
  "enabled (connectedPortal ref rot)"
  "connected_flag (connectedPortal ref rot)"
  "brokerConnection (connectedPortal ref rot) = Some 501"
  "screwHeads (connectedPortal ref rot) = [ref + 7, ref + 9]"
  by (simp_all add: connectedPortal_def onConnect_def manageConnection_def connect_def Portal_def
      demoApp_def createPortal_def createScrewHeads_def createScrewHead_def createBack_def
      createTube_def createMist_def createPointLight_def createTorus_def new_node_def
      group_add_def createCircle_def createBox_def createBody_def emptyPhysics_def Let_def
      split: prod.splits)


subsection \<open>Transit through a portal\<close>


lemma rotatePoint_origin_full_turn:
  "rotatePoint 0 0 vx vy (2 * pi) = (vx, vy)"
  "rotatePoint 0 0 vx vy (pi + pi) = (vx, vy)"
  by (simp_all add: rotatePoint_def)

lemma sendObjectToBroker_connected:
  assumes "brokerConnection p = Some c"
  shows "\<exists>topic env. sendObjectToBroker p b obj = Inr [Publish c topic env]
     \<and> env_velocity env = Some (rotatePoint 0 0 (fst (getLinearVelocity b))
                                (snd (getLinearVelocity b)) (- group_rotation_z p))
     \<and> env_rotation env = obj_group_rotation_z obj - group_rotation_z p
     \<and> env_angularVelocity env = getAngularVelocity b
     \<and> env_guid env = obj_guid obj"
  using assms by (simp add: sendObjectToBroker_def Let_def)

lemma onMessage_with_velocity:
  assumes "env_velocity payload = Some (vx, vy)"
  shows "\<exists>spawn rest. onMessage reg p topic payload = Inr (spawn, AddObjectFromMessage spawn topic # rest)
     \<and> env_velocity spawn = Some (rotatePoint 0 0 vx vy (rotation p + pi))
     \<and> env_rotation spawn = env_rotation payload + rotation p
     \<and> env_x spawn = portal_x p + cos (rotation p) * 10
     \<and> env_y spawn = portal_y p + sin (rotation p) * 10"
  using assms by (simp add: onMessage_def Let_def)



lemma onCollision_publishes_iff:
  "publishCalls (onCollision p b obj) \<noteq> [] \<longleftrightarrow>
     connected_flag p \<and> \<not> obj_isStatic obj
     \<and> \<not> (obj_isCoolingDown obj \<and> obj_fromPortal obj = Some (self p))
     \<and> brokerConnection p \<noteq> None"
  by (auto simp add: onCollision_def sendObjectToBroker_def Let_def split: option.splits)

text \<open>
  Claim C2. A collision on the back body publishes only when the portal is connected,
  the object is not static and the object is not cooling down from this same portal.
  An object that is cooling down and came from portal \<open>p\<close> causes no publish call
  (and no other effect) when it collides with \<open>p\<close>. When it collides with a
  different portal \<open>q\<close> that is connected and holds its connection, and the object
  is not static, \<open>q\<close> publishes one envelope and destroys the object, cooling down
  or not.
\<close>

theorem anti_bounce_guard:
  "(publishCalls (onCollision p b obj) \<noteq> [] \<longrightarrow>
      connected_flag p \<and> \<not> obj_isStatic obj
      \<and> \<not> (obj_isCoolingDown obj \<and> obj_fromPortal obj = Some (self p)))
   \<and> (obj_isCoolingDown obj \<and> obj_fromPortal obj = Some (self p) \<longrightarrow>
        onCollision p b obj = Inr [] \<and> publishCalls (onCollision p b obj) = [])
   \<and> (obj_fromPortal obj = Some (self p) \<and> self q \<noteq> self p \<and> connected_flag q
        \<and> brokerConnection q = Some c \<and> \<not> obj_isStatic obj \<longrightarrow>
        (\<exists>topic env. onCollision q b obj = Inr [Publish c topic env, DestroyObject (obj_ref obj)]
           \<and> publishCalls (onCollision q b obj) = [Publish c topic env]))"
proof -
  have only: "publishCalls (onCollision p b obj) \<noteq> [] \<longrightarrow>
      connected_flag p \<and> \<not> obj_isStatic obj
      \<and> \<not> (obj_isCoolingDown obj \<and> obj_fromPortal obj = Some (self p))"
    using onCollision_publishes_iff by blast
  have same: "obj_isCoolingDown obj \<and> obj_fromPortal obj = Some (self p) \<longrightarrow>
        onCollision p b obj = Inr [] \<and> publishCalls (onCollision p b obj) = []"
    by (simp add: onCollision_def)
  have other: "\<exists>topic env. onCollision q b obj = Inr [Publish c topic env, DestroyObject (obj_ref obj)]
           \<and> publishCalls (onCollision q b obj) = [Publish c topic env]"
    if h: "obj_fromPortal obj = Some (self p) \<and> self q \<noteq> self p \<and> connected_flag q
        \<and> brokerConnection q = Some c \<and> \<not> obj_isStatic obj"
  proof -
    obtain topic env where "sendObjectToBroker q b obj = Inr [Publish c topic env]"
      using h sendObjectToBroker_connected by blast
    then have "onCollision q b obj = Inr [Publish c topic env, DestroyObject (obj_ref obj)]"
      using h by (auto simp add: onCollision_def)
    then show ?thesis by simp
  qed
  from only same other show ?thesis by blast
qed

text \<open>
  The ball that came from portal 100 and is still cooling down: nothing is published
  at portal 100, one envelope at portal 200.
\<close>

theorem anti_bounce_guard_witness:
  "obj_isCoolingDown (demoBall (Some 100) True)
   \<and> obj_fromPortal (demoBall (Some 100) True) = Some (self (connectedPortal 100 0))
   \<and> self (connectedPortal 200 pi) \<noteq> self (connectedPortal 100 0)
   \<and> connected_flag (connectedPortal 200 pi)
   \<and> brokerConnection (connectedPortal 200 pi) = Some 501
   \<and> \<not> obj_isStatic (demoBall (Some 100) True)
   \<and> publishCalls (onCollision (connectedPortal 100 0) demoBody (demoBall (Some 100) True)) = []
   \<and> length (publishCalls (onCollision (connectedPortal 200 pi) demoBody (demoBall (Some 100) True))) = 1"
proof -
  have h: "obj_isCoolingDown (demoBall (Some 100) True)"
    "obj_fromPortal (demoBall (Some 100) True) = Some (self (connectedPortal 100 0))"
    "self (connectedPortal 200 pi) \<noteq> self (connectedPortal 100 0)"
    "connected_flag (connectedPortal 200 pi)"
    "brokerConnection (connectedPortal 200 pi) = Some 501"
    "\<not> obj_isStatic (demoBall (Some 100) True)"
    by (simp_all add: connectedPortal_eval demoBall_def)
  from anti_bounce_guard [of "connectedPortal 100 0" demoBody "demoBall (Some 100) True"
      "connectedPortal 200 pi" 501] h
  show ?thesis by auto
qed


subsection \<open>Messages after a disable\<close>

lemma disabledPortal_eval:
  "self disabledPortal = 200"
  "rotation disabledPortal = pi"
  "portal_x disabledPortal = 0"
  "portal_y disabledPortal = 0"
  "\<not> enabled disabledPortal"
  "\<not> connected_flag disabledPortal"
  "brokerConnection disabledPortal = None"
  by (simp_all add: disabledPortal_def onDisconnect_def manageConnection_def disconnect_def
      connectedPortal_eval)

text \<open>
  Claim C4, as stated, fails. The claim says that the message handler checks the
  enabled and connection state and discards a message delivered after the portal was
  disabled. \<open>onMessage\<close> reads neither: on the disabled portal, whose connection
  handle is dropped and whose \<open>connected\<close> flag is off, a message still makes it
  ask the world registry for an object and tag the object it gets.
\<close>

theorem late_message_still_spawns_counterexample:
  "\<not> enabled disabledPortal
   \<and> brokerConnection disabledPortal = None
   \<and> \<not> connected_flag disabledPortal
   \<and> onMessage demoRegistry disabledPortal ''portal/north/7/Ball/red''
        (demoEnvelope\<lparr>env_velocity := Some (1, 0)\<rparr>)
      = Inr (demoEnvelope\<lparr>env_x := - 10, env_y := 0, env_rotation := pi,
                            env_velocity := Some (1, 0)\<rparr>,
             [AddObjectFromMessage
                (demoEnvelope\<lparr>env_x := - 10, env_y := 0, env_rotation := pi,
                               env_velocity := Some (1, 0)\<rparr>)
                ''portal/north/7/Ball/red'',
              SetFromPortal 301 200])"
  by (simp add: disabledPortal_eval onMessage_def Let_def demoRegistry_def demoEnvelope_def
      rotatePoint_origin_full_turn)

text \<open>
  Claim C4, amended. Disabling is synchronous on the portal's side:
  \<open>manageConnection\<close> on a disabled portal that holds a connection calls
  \<open>disconnect()\<close> on it and drops the handle. The message handler itself consults
  neither \<open>enabled\<close> nor the connection handle nor \<open>connected\<close>: its outcome is
  the same whatever these fields hold, and every message that carries a velocity
  makes it call \<open>addObjectFromMessage\<close>. Whether a late message is discarded is
  up to the closed connection not delivering it.
\<close>

theorem message_handler_ignores_connection_state:
  "(\<not> enabled p \<and> brokerConnection p = Some c \<longrightarrow>
      manageConnection a p = (p\<lparr>brokerConnection := None\<rparr>, [Disconnect c]))
   \<and> onMessage reg (p\<lparr>enabled := en, brokerConnection := bc, connected_flag := cf\<rparr>) topic payload
       = onMessage reg p topic payload
   \<and> (env_velocity payload \<noteq> None \<longrightarrow>
        (\<exists>spawn rest.
            onMessage reg p topic payload = Inr (spawn, AddObjectFromMessage spawn topic # rest)))"
proof -
  have drop: "\<not> enabled p \<and> brokerConnection p = Some c \<longrightarrow>
      manageConnection a p = (p\<lparr>brokerConnection := None\<rparr>, [Disconnect c])"
    by (simp add: manageConnection_def disconnect_def)
  have blind: "onMessage reg (p\<lparr>enabled := en, brokerConnection := bc, connected_flag := cf\<rparr>)
       topic payload = onMessage reg p topic payload"
    by (simp add: onMessage_def Let_def split: option.splits)
  have acts: "env_velocity payload \<noteq> None \<longrightarrow>
        (\<exists>spawn rest.
            onMessage reg p topic payload = Inr (spawn, AddObjectFromMessage spawn topic # rest))"
    using onMessage_with_velocity [of payload _ _ reg p topic] by auto
  from drop blind acts show ?thesis by blast
qed

theorem message_handler_ignores_connection_state_witness:
  "\<not> enabled ((connectedPortal 200 pi)\<lparr>enabled := False\<rparr>)
   \<and> brokerConnection ((connectedPortal 200 pi)\<lparr>enabled := False\<rparr>) = Some 501
   \<and> env_velocity (demoEnvelope\<lparr>env_velocity := Some (1, 0)\<rparr>) \<noteq> None
   \<and> manageConnection demoApp ((connectedPortal 200 pi)\<lparr>enabled := False\<rparr>)
       = ((connectedPortal 200 pi)\<lparr>enabled := False, brokerConnection := None\<rparr>, [Disconnect 501])
   \<and> onMessage demoRegistry disabledPortal ''t'' (demoEnvelope\<lparr>env_velocity := Some (1, 0)\<rparr>)
       = onMessage demoRegistry (connectedPortal 200 pi) ''t''
           (demoEnvelope\<lparr>env_velocity := Some (1, 0)\<rparr>)"
proof -
  have h: "\<not> enabled ((connectedPortal 200 pi)\<lparr>enabled := False\<rparr>)"
   "brokerConnection ((connectedPortal 200 pi)\<lparr>enabled := False\<rparr>) = Some 501"
   "env_velocity (demoEnvelope\<lparr>env_velocity := Some (1, 0)\<rparr>) \<noteq> None"
    by (simp_all add: connectedPortal_eval)
  have d: "disabledPortal =
     (connectedPortal 200 pi)\<lparr>enabled := False, brokerConnection := None, connected_flag := False\<rparr>"
    by (simp add: disabledPortal_def onDisconnect_def manageConnection_def disconnect_def
        connectedPortal_eval)
  from message_handler_ignores_connection_state
         [of "(connectedPortal 200 pi)\<lparr>enabled := False\<rparr>" 501 demoApp demoRegistry
             False None False "''t''" "demoEnvelope\<lparr>env_velocity := Some (1, 0)\<rparr>"]
       message_handler_ignores_connection_state
         [of "connectedPortal 200 pi" 501 demoApp demoRegistry
             False None False "''t''" "demoEnvelope\<lparr>env_velocity := Some (1, 0)\<rparr>"]
       h d
  show ?thesis by simp
qed

subsection \<open>The pivot-flip correction\<close>

lemma onDownScrewHead_pair:
  assumes "screwHeads p = [s1, s2]" and "s1 \<noteq> s2"
  shows "onDownScrewHead gwp p s1 pos =
           Inr (p\<lparr>rotationPoint := Some (gwp s2),
                  rotationAdjustment :=
                    (if \<bar>js_rem (rotation p - bearing (gwp s2) pos) (pi * 2)\<bar> > pi / 2
                     then pi else 0)\<rparr>)"
  using assms by (simp add: onDownScrewHead_def bearing_def Let_def)

lemma bearing_above: "bearing (0, 0, 0) (0, 1, 0) = 0"
  by (simp add: bearing_def Math_atan2_def vec_x_def vec_y_def)

lemma bearing_below: "bearing (0, 0, 0) (0, - 1, 0) = pi"
  by (simp add: bearing_def Math_atan2_def vec_x_def vec_y_def)

lemma js_rem_small: "\<bar>a\<bar> < b \<Longrightarrow> js_rem a b = a"
proof -
  assume h: "\<bar>a\<bar> < b"
  then have b: "0 < b" by linarith
  have "js_trunc (a / b) = 0"
  proof (cases "0 \<le> a")
    case True
    then have "0 \<le> a / b" "a / b < 1" using h b by simp_all
    then show ?thesis by (simp add: js_trunc_def floor_eq_iff)
  next
    case False
    then have "a / b < 0" "- 1 < a / b" using h b by (simp_all add: field_simps)
    then show ?thesis by (simp add: js_trunc_def ceiling_eq_iff)
  qed
  then show ?thesis by (simp add: js_rem_def)
qed

lemma wrapped_seven_quarters: "wrapped_angular_difference 0 (7 * pi / 4) = pi / 4"
proof -
  have "(0 - 7 * pi / 4) / (2 * pi) = - (7 / 8)" by simp
  moreover have "round (- (7 / 8) :: real) = - 1" by (simp add: round_def floor_eq_iff)
  ultimately show ?thesis by (simp add: wrapped_angular_difference_def)
qed

text \<open>
  Where the code and the angular distance agree: as long as rotation and bearing are
  less than three quarters of a turn apart as numbers, the test of
  \<open>onDownScrewHead\<close> is the test on the wrapped angular difference.
\<close>

lemma round_cases:
  fixes x :: real
  assumes "\<bar>x\<bar> < 3 / 4"
  shows "(\<bar>x\<bar> > 1 / 4) = (\<bar>x - of_int (round x)\<bar> > 1 / 4)"
proof -
  consider "x < - 1 / 2" | "- 1 / 2 \<le> x \<and> x < 1 / 2" | "1 / 2 \<le> x" by linarith
  then show ?thesis
  proof cases
    case 1
    then have "round x = - 1" using assms by (simp add: round_def floor_eq_iff)
    then show ?thesis using 1 assms by simp
  next
    case 2
    then have "round x = 0" by (simp add: round_def floor_eq_iff)
    then show ?thesis by simp
  next
    case 3
    then have "round x = 1" using assms by (simp add: round_def floor_eq_iff)
    then show ?thesis using 3 assms by simp
  qed
qed

lemma wrapped_scaled:
  "wrapped_angular_difference a b = 2 * pi * \<bar>(a - b) / (2 * pi) - of_int (round ((a - b) / (2 * pi)))\<bar>"
proof -
  have "(a - b) - 2 * pi * of_int (round ((a - b) / (2 * pi)))
        = 2 * pi * ((a - b) / (2 * pi) - of_int (round ((a - b) / (2 * pi))))"
    by (simp add: field_simps)
  then show ?thesis
    unfolding wrapped_angular_difference_def by (simp add: abs_mult)
qed

lemma flip_agrees_below_three_quarters:
  assumes "\<bar>r - b\<bar> < 3 * pi / 2"
  shows "(\<bar>js_rem (r - b) (pi * 2)\<bar> > pi / 2) = (wrapped_angular_difference b r > pi / 2)"
proof -
  define x where "x = (b - r) / (2 * pi)"
  have bx: "b - r = 2 * pi * x" by (simp add: x_def)
  have ax: "\<bar>x\<bar> < 3 / 4"
  proof -
    have "\<bar>b - r\<bar> < 3 * pi / 2" using assms by (simp add: abs_minus_commute)
    then have "2 * pi * \<bar>x\<bar> < 3 * pi / 2" by (simp add: bx abs_mult)
    then have "pi * (2 * \<bar>x\<bar>) < pi * (3 / 2)" by (simp add: algebra_simps)
    then have "2 * \<bar>x\<bar> < 3 / 2" using pi_gt_zero by (simp only: mult_less_cancel_left_pos)
    then show ?thesis by simp
  qed
  have small: "\<bar>r - b\<bar> < pi * 2" using assms pi_gt_zero by linarith
  have "\<bar>b - r\<bar> = 2 * pi * \<bar>x\<bar>"
    by (simp add: bx abs_mult)
  then have code: "\<bar>js_rem (r - b) (pi * 2)\<bar> = 2 * pi * \<bar>x\<bar>"
    using js_rem_small [OF small] by (simp add: abs_minus_commute)
  have spec: "wrapped_angular_difference b r = 2 * pi * \<bar>x - of_int (round x)\<bar>"
    by (simp add: wrapped_scaled x_def)
  have q: "(2 * pi * t > pi / 2) = (t > 1 / 4)" for t :: real
  proof -
    have "(pi * (2 * t) > pi * (1 / 2)) = (2 * t > 1 / 2)"
      using pi_gt_zero by (simp only: mult_less_cancel_left_pos)
    then show ?thesis by (simp add: algebra_simps)
  qed
  show ?thesis
    unfolding code spec q using round_cases [OF ax] by simp
qed


text \<open>
  The two examples of the claim, with the pivot at the origin and rotation \<open>0\<close>:
  a pointer straight below the pivot has bearing \<open>pi\<close> and records \<open>pi\<close>; a
  pointer with bearing \<open>0.2\<close> records \<open>0\<close>.
\<close>

lemma bearing_fifth: "bearing (0, 0, 0) (- sin (1 / 5), cos (1 / 5), 0) = 1 / 5"
proof -
  have pos: "0 < sin (1 / 5 :: real)"
    by (rule sin_gt_zero) (use pi_ge_two in simp_all)
  have t: "tan (1 / 5 - pi / 2) = - cos (1 / 5) / sin (1 / 5 :: real)"
    by (simp add: tan_def sin_diff cos_diff)
  have "arctan (- cos (1 / 5) / sin (1 / 5 :: real)) = 1 / 5 - pi / 2"
    by (rule arctan_unique) (use pi_ge_two t in simp_all)
  then show ?thesis
    using pos by (simp add: bearing_def Math_atan2_def vec_x_def vec_y_def)
qed

lemma pivot_flip_examples:
  "onDownScrewHead pivotAtOrigin (connectedPortal 100 0) 107 (0, - 1, 0)
     = Inr ((connectedPortal 100 0)\<lparr>rotationPoint := Some (0, 0, 0), rotationAdjustment := pi\<rparr>)"
  "onDownScrewHead pivotAtOrigin (connectedPortal 100 0) 107 (- sin (1 / 5), cos (1 / 5), 0)
     = Inr ((connectedPortal 100 0)\<lparr>rotationPoint := Some (0, 0, 0), rotationAdjustment := 0\<rparr>)"
proof -
  have sh: "screwHeads (connectedPortal 100 0) = [107, 109]"
    by (simp add: connectedPortal_eval)
  have r1: "js_rem (- pi) (pi * 2) = - pi"
    by (rule js_rem_small) simp
  have r2: "js_rem (- (1 / 5)) (pi * 2) = - (1 / 5)"
    by (rule js_rem_small) (use pi_ge_two in simp)
  show "onDownScrewHead pivotAtOrigin (connectedPortal 100 0) 107 (0, - 1, 0)
     = Inr ((connectedPortal 100 0)\<lparr>rotationPoint := Some (0, 0, 0), rotationAdjustment := pi\<rparr>)"
    by (simp add: onDownScrewHead_pair [OF sh] pivotAtOrigin_def bearing_below
        connectedPortal_eval r1)
  show "onDownScrewHead pivotAtOrigin (connectedPortal 100 0) 107 (- sin (1 / 5), cos (1 / 5), 0)
     = Inr ((connectedPortal 100 0)\<lparr>rotationPoint := Some (0, 0, 0), rotationAdjustment := 0\<rparr>)"
    using pi_ge_two
    by (simp add: onDownScrewHead_pair [OF sh] pivotAtOrigin_def bearing_fifth
        connectedPortal_eval r2)
qed

text \<open>
  Claim C5. On drag-start of one screw head the recorded correction should be \<open>pi\<close>
  exactly when the wrapped angular difference between the bearing and the portal's
  rotation exceeds a quarter turn, and \<open>0\<close> otherwise. The code tests
  \<open>Math.abs((rotation - angle) % (2 * pi))\<close> instead, which is not wrapped into
  half a turn. For the portal with rotation \<open>7 * pi / 4\<close>, the pivot at the origin
  and the pointer straight above it, the bearing is \<open>0\<close> and the wrapped angular
  difference is \<open>pi / 4\<close>, below a quarter turn; the code records \<open>pi\<close>.
\<close>

theorem pivot_flip_within_quarter_turn:
  "onDownScrewHead pivotAtOrigin (connectedPortal 100 (7 * pi / 4)) 107 (0, 1, 0)
     = Inr ((connectedPortal 100 (7 * pi / 4))
              \<lparr>rotationPoint := Some (0, 0, 0), rotationAdjustment := pi\<rparr>)
   \<and> bearing (0, 0, 0) (0, 1, 0) = 0
   \<and> wrapped_angular_difference (bearing (0, 0, 0) (0, 1, 0))
        (rotation (connectedPortal 100 (7 * pi / 4))) = pi / 4
   \<and> pi / 4 \<le> pi / 2"
proof -
  have sh: "screwHeads (connectedPortal 100 (7 * pi / 4)) = [107, 109]"
    by (simp add: connectedPortal_eval)
  have r: "js_rem (7 * pi / 4) (pi * 2) = 7 * pi / 4"
    by (rule js_rem_small) simp
  show ?thesis
    by (simp add: onDownScrewHead_pair [OF sh] pivotAtOrigin_def bearing_above
        connectedPortal_eval r wrapped_seven_quarters)
qed

subsection \<open>Physics bodies of a portal\<close>

lemma bodiesOf_fun: "(\<lambda>m. case physicsBodies m of None \<Rightarrow> [] | Some l \<Rightarrow> l) = bodiesOf"
  by (rule ext) (simp add: bodiesOf_def)

lemma meshBodies_concat: "meshBodies p = concat (map bodiesOf (group_children p))"
  by (simp add: meshBodies_def bodiesOf_fun)

lemma filter_twice:
  "filter (\<lambda>x. body_id x \<notin> set bs) (filter (\<lambda>x. body_id x \<noteq> b) xs)
        = filter (\<lambda>x. body_id x \<notin> set (b # bs)) xs"
  by (induction xs) auto

lemma foldl_removeBody:
  "foldl removeBody ph bs = ph\<lparr>bodies := filter (\<lambda>x. body_id x \<notin> set bs) (bodies ph)\<rparr>"
proof (induction bs arbitrary: ph)
  case Nil
  then show ?case by simp
next
  case (Cons b bs)
  have "foldl removeBody ph (b # bs) = foldl removeBody (removeBody ph b) bs"
    by simp
  also have "\<dots> = (removeBody ph b)
       \<lparr>bodies := filter (\<lambda>x. body_id x \<notin> set bs) (bodies (removeBody ph b))\<rparr>"
    by (rule Cons.IH)
  also have "\<dots> = ph\<lparr>bodies := filter (\<lambda>x. body_id x \<notin> set (b # bs)) (bodies ph)\<rparr>"
    by (simp add: removeBody_def filter_twice)
  finally show ?case .
qed

lemma destroyChildren_Cons:
  "destroyChildren (m # ms) ph =
     (let ph1 = foldl removeBody ph (bodiesOf m);
          r = destroyChildren ms ph1
      in ((if node_type m \<noteq> ''PointLight'' then fst r
           else (case physicsBodies m of None \<Rightarrow> m | Some l \<Rightarrow> m\<lparr>physicsBodies := Some []\<rparr>) # fst r),
          fst (snd r),
          map RemoveBody (bodiesOf m) @
          (if node_type m \<noteq> ''PointLight'' then [RemoveMesh (node_id m)] else []) @ snd (snd r)))"
  by (simp add: Let_def bodiesOf_def split: prod.splits)

lemma destroyChildren_physics:
  "fst (snd (destroyChildren ms ph)) =
     ph\<lparr>bodies := filter (\<lambda>x. body_id x \<notin> set (concat (map bodiesOf ms))) (bodies ph)\<rparr>"
proof (induction ms arbitrary: ph)
  case Nil
  then show ?case by simp
next
  case (Cons m ms)
  have f: "filter (\<lambda>x. body_id x \<notin> set (concat (map bodiesOf ms)))
             (filter (\<lambda>x. body_id x \<notin> set (bodiesOf m)) xs)
         = filter (\<lambda>x. body_id x \<notin> set (concat (map bodiesOf (m # ms)))) xs" for xs
    by (induction xs) auto
  show ?case
    by (simp only: destroyChildren_Cons Let_def fst_conv snd_conv Cons.IH foldl_removeBody)
       (simp add: f)
qed

lemma destroyChildren_rest:
  "concat (map bodiesOf (fst (destroyChildren ms ph))) = []"
  "node_id ` set (fst (destroyChildren ms ph)) \<subseteq> node_id ` set ms"
proof (induction ms arbitrary: ph)
  case Nil
  { case 1 show ?case by simp }
  { case 2 show ?case by simp }
next
  case (Cons m ms)
  { case 1
    have e: "bodiesOf (case physicsBodies m of None \<Rightarrow> m
                        | Some l \<Rightarrow> m\<lparr>physicsBodies := Some []\<rparr>) = []"
      by (simp add: bodiesOf_def split: option.splits)
    show ?case
      using Cons.IH(1) [of "foldl removeBody ph (bodiesOf m)"] e
      by (simp only: destroyChildren_Cons Let_def fst_conv) simp }
  { case 2 show ?case
      using Cons.IH(2) [of "foldl removeBody ph (bodiesOf m)"]
      by (simp only: destroyChildren_Cons Let_def fst_conv)
         (auto split: option.splits) }
qed

lemma destroyChildren_order:
  assumes "distinct (map node_id ms)" and "m \<in> set ms" and "b \<in> set (bodiesOf m)"
  shows "RemoveBody b \<in> set (takeWhile (\<lambda>e. e \<noteq> RemoveMesh (node_id m))
                                (snd (snd (destroyChildren ms ph))))"
  using assms
proof (induction ms arbitrary: ph)
  case Nil
  then show ?case by simp
next
  case (Cons m0 ms)
  let ?P = "\<lambda>e. e \<noteq> RemoveMesh (node_id m)"
  let ?tr = "snd (snd (destroyChildren ms (foldl removeBody ph (bodiesOf m0))))"
  have tw: "takeWhile ?P (map RemoveBody (bodiesOf m0) @ rest)
            = map RemoveBody (bodiesOf m0) @ takeWhile ?P rest" for rest
    by (rule takeWhile_append2) auto
  have tr: "snd (snd (destroyChildren (m0 # ms) ph)) =
      map RemoveBody (bodiesOf m0) @
      (if node_type m0 \<noteq> ''PointLight'' then [RemoveMesh (node_id m0)] else []) @ ?tr"
    by (simp only: destroyChildren_Cons Let_def snd_conv)
  show ?case
  proof (cases "m = m0")
    case True
    then have "RemoveBody b \<in> set (map RemoveBody (bodiesOf m0))"
      using Cons.prems(3) by simp
    then show ?thesis
      unfolding tr tw by simp
  next
    case False
    then have in_ms: "m \<in> set ms" using Cons.prems(2) by simp
    then have ne: "node_id m0 \<noteq> node_id m" using Cons.prems(1) by auto
    have "RemoveBody b \<in> set (takeWhile ?P ?tr)"
      using Cons.IH [OF _ in_ms Cons.prems(3)] Cons.prems(1) by simp
    then show ?thesis
      unfolding tr tw using ne by simp
  qed
qed


text \<open>What each step of \<open>createPortal\<close> adds.\<close>

lemma createBody_parts:
  "fst (createBody ph owner shape hook) = next_body ph"
  "next_body (snd (createBody ph owner shape hook)) = Suc (next_body ph)"
  "bodiesOwnedBy (snd (createBody ph owner shape hook)) who =
     bodiesOwnedBy ph who @ (if who = owner then [next_body ph] else [])"
  by (simp_all add: createBody_def bodiesOwnedBy_def)

lemma two_bodies:
  assumes "createBody ph owner sh1 h1 = (b1, ph1)" and "createBody ph1 owner sh2 h2 = (b2, ph2)"
  shows "b1 = next_body ph" and "b2 = Suc (next_body ph)"
    and "next_body ph2 = Suc (Suc (next_body ph))"
    and "bodiesOwnedBy ph2 owner = bodiesOwnedBy ph owner @ [next_body ph, Suc (next_body ph)]"
proof -
  show b1: "b1 = next_body ph" using createBody_parts(1) [of ph owner sh1 h1] assms(1) by simp
  have n1: "next_body ph1 = Suc (next_body ph)"
    using createBody_parts(2) [of ph owner sh1 h1] assms(1) by simp
  show "b2 = Suc (next_body ph)"
    using createBody_parts(1) [of ph1 owner sh2 h2] assms(2) n1 by simp
  show "next_body ph2 = Suc (Suc (next_body ph))"
    using createBody_parts(2) [of ph1 owner sh2 h2] assms(2) n1 by simp
  have o1: "bodiesOwnedBy ph1 owner = bodiesOwnedBy ph owner @ [next_body ph]"
    using createBody_parts(3) [of ph owner sh1 h1 owner] assms(1) by simp
  show "bodiesOwnedBy ph2 owner = bodiesOwnedBy ph owner @ [next_body ph, Suc (next_body ph)]"
    using createBody_parts(3) [of ph1 owner sh2 h2 owner] assms(2) o1 n1 by simp
qed

lemma meshBodies_group_add:
  "meshBodies (group_add p n) = meshBodies p @ bodiesOf n"
  by (simp add: meshBodies_concat group_add_def)

lemma meshBodies_frame [simp]:
  "meshBodies (p\<lparr>torus := t\<rparr>) = meshBodies p"
  "meshBodies (p\<lparr>mist := t\<rparr>) = meshBodies p"
  "meshBodies (p\<lparr>pointLight := t\<rparr>) = meshBodies p"
  "meshBodies (p\<lparr>screwHeads := hs\<rparr>) = meshBodies p"
  "meshBodies (p\<lparr>fresh_node := k\<rparr>) = meshBodies p"
  "meshBodies (p\<lparr>group_position := gp\<rparr>) = meshBodies p"
  "meshBodies (p\<lparr>group_rotation_z := gr\<rparr>) = meshBodies p"
  by (simp_all add: meshBodies_def)

lemma self_group_add [simp]: "self (group_add p n) = self p"
  by (simp add: group_add_def)

lemma createTorus_parts:
  "meshBodies (fst (createTorus s)) =
     meshBodies (fst s) @ [next_body (snd s), Suc (next_body (snd s))]"
  "bodiesOwnedBy (snd (createTorus s)) (self (fst s)) =
     bodiesOwnedBy (snd s) (self (fst s)) @ [next_body (snd s), Suc (next_body (snd s))]"
  "self (fst (createTorus s)) = self (fst s)"
  "next_body (snd (createTorus s)) = Suc (Suc (next_body (snd s)))"
proof -
  obtain p ph where s: "s = (p, ph)" by (cases s)
  obtain b1 ph1 where c1: "createBody ph (self p) Circle False = (b1, ph1)"
    by (cases "createBody ph (self p) Circle False")
  obtain b2 ph2 where c2: "createBody ph1 (self p) Circle False = (b2, ph2)"
    by (cases "createBody ph1 (self p) Circle False")
  note t = two_bodies [OF c1 c2]
  have e: "createTorus s =
     ((group_add (p\<lparr>fresh_node := Suc (fresh_node p)\<rparr>)
         \<lparr>node_id = fresh_node p, node_type = ''Mesh'', physicsBodies = Some [b1, b2]\<rparr>)
        \<lparr>torus := Some (fresh_node p)\<rparr>, ph2)"
    by (simp add: createTorus_def s new_node_def createCircle_def c1 c2)
  show "meshBodies (fst (createTorus s)) =
     meshBodies (fst s) @ [next_body (snd s), Suc (next_body (snd s))]"
    unfolding e by (simp add: meshBodies_group_add bodiesOf_def t s)
  show "bodiesOwnedBy (snd (createTorus s)) (self (fst s)) =
     bodiesOwnedBy (snd s) (self (fst s)) @ [next_body (snd s), Suc (next_body (snd s))]"
    unfolding e by (simp add: t s)
  show "self (fst (createTorus s)) = self (fst s)"
    unfolding e by (simp add: s)
  show "next_body (snd (createTorus s)) = Suc (Suc (next_body (snd s)))"
    unfolding e by (simp add: t s)
qed

lemma createTube_parts:
  "meshBodies (fst (createTube s)) =
     meshBodies (fst s) @ [next_body (snd s), Suc (next_body (snd s))]"
  "bodiesOwnedBy (snd (createTube s)) (self (fst s)) =
     bodiesOwnedBy (snd s) (self (fst s)) @ [next_body (snd s), Suc (next_body (snd s))]"
  "self (fst (createTube s)) = self (fst s)"
  "next_body (snd (createTube s)) = Suc (Suc (next_body (snd s)))"
proof -
  obtain p ph where s: "s = (p, ph)" by (cases s)
  obtain b1 ph1 where c1: "createBody ph (self p) Box False = (b1, ph1)"
    by (cases "createBody ph (self p) Box False")
  obtain b2 ph2 where c2: "createBody ph1 (self p) Box False = (b2, ph2)"
    by (cases "createBody ph1 (self p) Box False")
  note t = two_bodies [OF c1 c2]
  have e: "createTube s =
     (group_add (p\<lparr>fresh_node := Suc (fresh_node p)\<rparr>)
         \<lparr>node_id = fresh_node p, node_type = ''Mesh'', physicsBodies = Some [b1, b2]\<rparr>, ph2)"
    by (simp add: createTube_def s new_node_def createBox_def c1 c2)
  show "meshBodies (fst (createTube s)) =
     meshBodies (fst s) @ [next_body (snd s), Suc (next_body (snd s))]"
    unfolding e by (simp add: meshBodies_group_add bodiesOf_def t s)
  show "bodiesOwnedBy (snd (createTube s)) (self (fst s)) =
     bodiesOwnedBy (snd s) (self (fst s)) @ [next_body (snd s), Suc (next_body (snd s))]"
    unfolding e by (simp add: t s)
  show "self (fst (createTube s)) = self (fst s)"
    unfolding e by (simp add: s)
  show "next_body (snd (createTube s)) = Suc (Suc (next_body (snd s)))"
    unfolding e by (simp add: t s)
qed

lemma createBack_parts:
  "meshBodies (fst (createBack s)) =
     meshBodies (fst s) @ [next_body (snd s), Suc (next_body (snd s))]"
  "bodiesOwnedBy (snd (createBack s)) (self (fst s)) =
     bodiesOwnedBy (snd s) (self (fst s)) @ [next_body (snd s), Suc (next_body (snd s))]"
  "self (fst (createBack s)) = self (fst s)"
  "next_body (snd (createBack s)) = Suc (Suc (next_body (snd s)))"
proof -
  obtain p ph where s: "s = (p, ph)" by (cases s)
  obtain b1 ph1 where c1: "createBody ph (self p) Box False = (b1, ph1)"
    by (cases "createBody ph (self p) Box False")
  obtain b2 ph2 where c2: "createBody ph1 (self p) Box True = (b2, ph2)"
    by (cases "createBody ph1 (self p) Box True")
  note t = two_bodies [OF c1 c2]
  have e: "createBack s =
     (group_add (p\<lparr>fresh_node := Suc (fresh_node p)\<rparr>)
         \<lparr>node_id = fresh_node p, node_type = ''Mesh'', physicsBodies = Some [b1, b2]\<rparr>, ph2)"
    by (simp add: createBack_def s new_node_def createBox_def c1 c2)
  show "meshBodies (fst (createBack s)) =
     meshBodies (fst s) @ [next_body (snd s), Suc (next_body (snd s))]"
    unfolding e by (simp add: meshBodies_group_add bodiesOf_def t s)
  show "bodiesOwnedBy (snd (createBack s)) (self (fst s)) =
     bodiesOwnedBy (snd s) (self (fst s)) @ [next_body (snd s), Suc (next_body (snd s))]"
    unfolding e by (simp add: t s)
  show "self (fst (createBack s)) = self (fst s)"
    unfolding e by (simp add: s)
  show "next_body (snd (createBack s)) = Suc (Suc (next_body (snd s)))"
    unfolding e by (simp add: t s)
qed

lemma bodiless_parts:
  "meshBodies (fst (createPointLight s)) = meshBodies (fst s)"
  "snd (createPointLight s) = snd s"
  "self (fst (createPointLight s)) = self (fst s)"
  "meshBodies (fst (createMist s)) = meshBodies (fst s)"
  "snd (createMist s) = snd s"
  "self (fst (createMist s)) = self (fst s)"
  "meshBodies (fst (createScrewHeads s)) = meshBodies (fst s)"
  "snd (createScrewHeads s) = snd s"
  "self (fst (createScrewHeads s)) = self (fst s)"
  by (simp_all add: createPointLight_def createMist_def createScrewHeads_def createScrewHead_def
      new_node_def meshBodies_group_add bodiesOf_def split: prod.splits option.splits)

lemma createPortal_bodies:
  "meshBodies (fst (createPortal (p, ph))) =
     meshBodies p @ [next_body ph, Suc (next_body ph), Suc (Suc (next_body ph)),
                     Suc (Suc (Suc (next_body ph))), Suc (Suc (Suc (Suc (next_body ph)))),
                     Suc (Suc (Suc (Suc (Suc (next_body ph)))))]"
  "bodiesOwnedBy (snd (createPortal (p, ph))) (self p) =
     bodiesOwnedBy ph (self p) @ [next_body ph, Suc (next_body ph), Suc (Suc (next_body ph)),
                     Suc (Suc (Suc (next_body ph))), Suc (Suc (Suc (Suc (next_body ph)))),
                     Suc (Suc (Suc (Suc (Suc (next_body ph)))))]"
  "self (fst (createPortal (p, ph))) = self p"
proof -
  let ?s1 = "createTorus (p, ph)"
  let ?s2 = "createPointLight ?s1"
  let ?s3 = "createMist ?s2"
  let ?s4 = "createTube ?s3"
  let ?s5 = "createBack ?s4"
  let ?s6 = "createScrewHeads ?s5"
  have e: "createPortal (p, ph) =
     ((fst ?s6)\<lparr>group_position := (portal_x (fst ?s6), portal_y (fst ?s6), 0),
                 group_rotation_z := rotation (fst ?s6)\<rparr>, snd ?s6)"
    by (simp add: createPortal_def split: prod.splits)
  have selfs: "self (fst ?s5) = self p" "self (fst ?s4) = self p" "self (fst ?s3) = self p"
    "self (fst ?s2) = self p" "self (fst ?s1) = self p" "self (fst ?s6) = self p"
    by (simp_all add: createTorus_parts createTube_parts createBack_parts bodiless_parts)
  have n3: "next_body (snd ?s3) = Suc (Suc (next_body ph))"
    by (simp add: bodiless_parts createTorus_parts)
  have n4: "next_body (snd ?s4) = Suc (Suc (Suc (Suc (next_body ph))))"
    by (simp add: createTube_parts n3)
  have m3: "meshBodies (fst ?s3) = meshBodies p @ [next_body ph, Suc (next_body ph)]"
    by (simp add: bodiless_parts createTorus_parts)
  have o3: "bodiesOwnedBy (snd ?s3) (self p) =
      bodiesOwnedBy ph (self p) @ [next_body ph, Suc (next_body ph)]"
    using createTorus_parts(2) [of "(p, ph)"] by (simp add: bodiless_parts)
  have m4: "meshBodies (fst ?s4) = meshBodies (fst ?s3) @ [next_body (snd ?s3), Suc (next_body (snd ?s3))]"
    by (rule createTube_parts(1))
  have o4: "bodiesOwnedBy (snd ?s4) (self p) =
      bodiesOwnedBy (snd ?s3) (self p) @ [next_body (snd ?s3), Suc (next_body (snd ?s3))]"
    using createTube_parts(2) [of ?s3] selfs(3) by simp
  have m5: "meshBodies (fst ?s5) = meshBodies (fst ?s4) @ [next_body (snd ?s4), Suc (next_body (snd ?s4))]"
    by (rule createBack_parts(1))
  have o5: "bodiesOwnedBy (snd ?s5) (self p) =
      bodiesOwnedBy (snd ?s4) (self p) @ [next_body (snd ?s4), Suc (next_body (snd ?s4))]"
    using createBack_parts(2) [of ?s4] selfs(2) by simp
  show "meshBodies (fst (createPortal (p, ph))) =
     meshBodies p @ [next_body ph, Suc (next_body ph), Suc (Suc (next_body ph)),
                     Suc (Suc (Suc (next_body ph))), Suc (Suc (Suc (Suc (next_body ph)))),
                     Suc (Suc (Suc (Suc (Suc (next_body ph)))))]"
    unfolding e by (simp add: bodiless_parts(7) m5 m4 m3 n3 n4)
  show "bodiesOwnedBy (snd (createPortal (p, ph))) (self p) =
     bodiesOwnedBy ph (self p) @ [next_body ph, Suc (next_body ph), Suc (Suc (next_body ph)),
                     Suc (Suc (Suc (next_body ph))), Suc (Suc (Suc (Suc (next_body ph)))),
                     Suc (Suc (Suc (Suc (Suc (next_body ph)))))]"
    unfolding e by (simp add: bodiless_parts(8) o5 o4 o3 n3 n4)
  show "self (fst (createPortal (p, ph))) = self p"
    unfolding e by (simp add: selfs)
qed

lemma destroyPortal_parts:
  "meshBodies (fst (fst (destroyPortal (p, ph)))) = []"
  "self (fst (fst (destroyPortal (p, ph)))) = self p"
  "snd (fst (destroyPortal (p, ph))) =
     ph\<lparr>bodies := filter (\<lambda>x. body_id x \<notin> set (meshBodies p)) (bodies ph)\<rparr>"
  "snd (destroyPortal (p, ph)) = snd (snd (destroyChildren (group_children p) ph))"
proof -
  obtain rest ph1 tr where d: "destroyChildren (group_children p) ph = (rest, ph1, tr)"
    by (cases "destroyChildren (group_children p) ph") auto
  have r: "concat (map bodiesOf rest) = []"
    using destroyChildren_rest(1) [of "group_children p" ph] d by simp
  show "meshBodies (fst (fst (destroyPortal (p, ph)))) = []"
    using r by (simp add: destroyPortal_def d meshBodies_concat)
  show "self (fst (fst (destroyPortal (p, ph)))) = self p"
    by (simp add: destroyPortal_def d)
  show "snd (fst (destroyPortal (p, ph))) =
     ph\<lparr>bodies := filter (\<lambda>x. body_id x \<notin> set (meshBodies p)) (bodies ph)\<rparr>"
    using destroyChildren_physics [of "group_children p" ph] d
    by (simp add: destroyPortal_def meshBodies_concat)
  show "snd (destroyPortal (p, ph)) = snd (snd (destroyChildren (group_children p) ph))"
    by (simp add: destroyPortal_def d)
qed

lemma destroyPortal_owned:
  "bodiesOwnedBy (snd (fst (destroyPortal (p, ph)))) owner =
     filter (\<lambda>b. b \<notin> set (meshBodies p)) (bodiesOwnedBy ph owner)"
proof -
  have "map body_id (filter (\<lambda>x. body_owner x = owner) (filter (\<lambda>x. body_id x \<notin> M) xs))
        = filter (\<lambda>b. b \<notin> M) (map body_id (filter (\<lambda>x. body_owner x = owner) xs))" for M xs
    by (induction xs) auto
  then show ?thesis
    by (simp add: destroyPortal_parts(3) bodiesOwnedBy_def)
qed

text \<open>One redraw of a portal whose registered bodies are those of its meshes.\<close>

lemma reDraw_hygiene:
  assumes "bodiesOwnedBy (snd s) (self (fst s)) = meshBodies (fst s)"
  shows "bodiesOwnedBy (snd (reDraw s)) (self (fst s)) = meshBodies (fst (reDraw s))"
    and "self (fst (reDraw s)) = self (fst s)"
    and "length (meshBodies (fst (reDraw s))) = 6"
    and "distinct (meshBodies (fst (reDraw s)))"
proof -
  obtain p ph where s: "s = (p, ph)" by (cases s)
  obtain p1 ph1 where d: "fst (destroyPortal (p, ph)) = (p1, ph1)"
    by (cases "fst (destroyPortal (p, ph))")
  have m1: "meshBodies p1 = []" and s1: "self p1 = self p"
    using destroyPortal_parts(1,2) [of p ph] d by simp_all
  have "bodiesOwnedBy ph1 (self p) = filter (\<lambda>b. b \<notin> set (meshBodies p)) (meshBodies p)"
    using destroyPortal_owned [of p ph "self p"] d assms s by simp
  then have o1: "bodiesOwnedBy ph1 (self p1) = []" by (simp add: s1)
  have r: "reDraw s = createPortal (p1, ph1)" by (simp add: reDraw_def s d)
  have f: "self (fst s) = self p1" by (simp add: s s1)
  show "bodiesOwnedBy (snd (reDraw s)) (self (fst s)) = meshBodies (fst (reDraw s))"
    unfolding r f using createPortal_bodies(1,2) [of p1 ph1] m1 o1 by simp
  show "self (fst (reDraw s)) = self (fst s)"
    unfolding r f using createPortal_bodies(3) [of p1 ph1] by simp
  show "length (meshBodies (fst (reDraw s))) = 6"
    unfolding r using createPortal_bodies(1) [of p1 ph1] m1 by simp
  show "distinct (meshBodies (fst (reDraw s)))"
    unfolding r using createPortal_bodies(1) [of p1 ph1] m1 by simp
qed

lemma reDraw_repeated:
  assumes "bodiesOwnedBy (snd s) (self (fst s)) = meshBodies (fst s)"
  shows "bodiesOwnedBy (snd ((reDraw ^^ n) s)) (self (fst s)) = meshBodies (fst ((reDraw ^^ n) s))
       \<and> self (fst ((reDraw ^^ n) s)) = self (fst s)
       \<and> (0 < n \<longrightarrow> length (meshBodies (fst ((reDraw ^^ n) s))) = 6
                   \<and> distinct (meshBodies (fst ((reDraw ^^ n) s))))"
proof (induction n)
  case 0
  then show ?case using assms by simp
next
  case (Suc n)
  let ?t = "(reDraw ^^ n) s"
  have h: "bodiesOwnedBy (snd ?t) (self (fst ?t)) = meshBodies (fst ?t)"
    using Suc.IH by simp
  have e: "self (fst ?t) = self (fst s)" using Suc.IH by simp
  show ?case
    using reDraw_hygiene [OF h] e by simp
qed

lemma Portal_hygiene:
  assumes "bodiesOwnedBy ph ref = []"
  shows "bodiesOwnedBy (snd (Portal ref nm pid br px py rot ph)) ref
           = meshBodies (fst (Portal ref nm pid br px py rot ph))"
proof -
  obtain p0 where p0: "Portal ref nm pid br px py rot ph = createPortal (p0, ph)"
    "self p0 = ref" "group_children p0 = []"
    by (simp add: Portal_def)
  have "meshBodies p0 = []" by (simp add: meshBodies_def p0(3))
  then show ?thesis
    unfolding p0(1) using createPortal_bodies(1,2) [of p0 ph] assms p0(2) by simp
qed


lemma destroyChildren_keeps_lights:
  "m \<in> set (fst (destroyChildren ms ph)) \<Longrightarrow> node_type m = ''PointLight''"
proof (induction ms arbitrary: ph)
  case Nil
  then show ?case by simp
next
  case (Cons m0 ms)
  from Cons.prems show ?case
    by (simp only: destroyChildren_Cons Let_def fst_conv)
       (auto dest: Cons.IH split: if_splits option.splits)
qed

lemma freshPortal_eval:
  "self (fst freshPortal) = 100"
  "map node_id (group_children (fst freshPortal)) = [101, 102, 103, 104, 105, 107, 109]"
  "meshBodies (fst freshPortal) = [0, 1, 2, 3, 4, 5]"
  "bodiesOwnedBy (snd freshPortal) 100 = [0, 1, 2, 3, 4, 5]"
  by (simp_all add: freshPortal_def Portal_def createPortal_def createScrewHeads_def
      createScrewHead_def createBack_def createTube_def createMist_def createPointLight_def
      createTorus_def new_node_def group_add_def createCircle_def createBox_def createBody_def
      emptyPhysics_def meshBodies_def bodiesOwnedBy_def split: prod.splits)

text \<open>
  Claim C9. Take a portal whose bodies registered with the physics engine are
  exactly the bodies its meshes hold, the children of its group being distinct
  objects. \<open>destroyPortal\<close> leaves none of the meshes' bodies in the engine, and
  every body of a child is removed before that child itself is removed from the
  group; what stays in the group are point lights, and no body of the portal stays
  registered. After any number of \<open>reDraw\<close> calls the bodies registered for the
  portal are again exactly the bodies of the current meshes, so never more than the
  meshes require: six of them after a redraw, without duplicates.
\<close>

theorem portal_body_hygiene:
  assumes own: "bodiesOwnedBy ph (self p) = meshBodies p"
    and ids: "distinct (map node_id (group_children p))"
  shows "(\<forall>b \<in> set (meshBodies p).
            b \<notin> set (map body_id (bodies (snd (fst (destroyPortal (p, ph)))))))
       \<and> (\<forall>m \<in> set (group_children p). \<forall>b \<in> set (bodiesOf m).
            RemoveBody b \<in> set (takeWhile (\<lambda>e. e \<noteq> RemoveMesh (node_id m))
                                   (snd (destroyPortal (p, ph)))))
       \<and> (\<forall>m \<in> set (group_children (fst (fst (destroyPortal (p, ph))))).
            node_type m = ''PointLight'')
       \<and> bodiesOwnedBy (snd (fst (destroyPortal (p, ph)))) (self p) = []
       \<and> (\<forall>n. bodiesOwnedBy (snd ((reDraw ^^ n) (p, ph))) (self p)
                = meshBodies (fst ((reDraw ^^ n) (p, ph)))
             \<and> length (bodiesOwnedBy (snd ((reDraw ^^ n) (p, ph))) (self p))
                \<le> length (meshBodies (fst ((reDraw ^^ n) (p, ph))))
             \<and> (0 < n \<longrightarrow>
                  length (meshBodies (fst ((reDraw ^^ n) (p, ph)))) = 6
                \<and> distinct (bodiesOwnedBy (snd ((reDraw ^^ n) (p, ph))) (self p))))"
proof (intro conjI ballI allI)
  fix b assume "b \<in> set (meshBodies p)"
  then show "b \<notin> set (map body_id (bodies (snd (fst (destroyPortal (p, ph))))))"
    by (auto simp add: destroyPortal_parts(3))
next
  fix m b assume "m \<in> set (group_children p)" and "b \<in> set (bodiesOf m)"
  then show "RemoveBody b \<in> set (takeWhile (\<lambda>e. e \<noteq> RemoveMesh (node_id m))
                                   (snd (destroyPortal (p, ph))))"
    using destroyChildren_order [OF ids] by (simp add: destroyPortal_parts(4))
next
  fix m assume "m \<in> set (group_children (fst (fst (destroyPortal (p, ph)))))"
  then show "node_type m = ''PointLight''"
    using destroyChildren_keeps_lights [of m "group_children p" ph]
    by (simp add: destroyPortal_def split: prod.splits)
next
  show "bodiesOwnedBy (snd (fst (destroyPortal (p, ph)))) (self p) = []"
    by (simp add: destroyPortal_owned own)
next
  fix n
  have r: "bodiesOwnedBy (snd ((reDraw ^^ n) (p, ph))) (self p)
             = meshBodies (fst ((reDraw ^^ n) (p, ph)))
         \<and> (0 < n \<longrightarrow> length (meshBodies (fst ((reDraw ^^ n) (p, ph)))) = 6
                     \<and> distinct (meshBodies (fst ((reDraw ^^ n) (p, ph)))))"
    using reDraw_repeated [of "(p, ph)" n] own by simp
  from r show "bodiesOwnedBy (snd ((reDraw ^^ n) (p, ph))) (self p)
                = meshBodies (fst ((reDraw ^^ n) (p, ph)))" by simp
  from r show "length (bodiesOwnedBy (snd ((reDraw ^^ n) (p, ph))) (self p))
                \<le> length (meshBodies (fst ((reDraw ^^ n) (p, ph))))" by simp
  from r show "0 < n \<longrightarrow>
                  length (meshBodies (fst ((reDraw ^^ n) (p, ph)))) = 6
                \<and> distinct (bodiesOwnedBy (snd ((reDraw ^^ n) (p, ph))) (self p))" by simp
qed

text \<open>
  The freshly constructed portal 100 has the bodies 0 to 5; destroying it leaves none,
  and three redraws leave six, those of its meshes.
\<close>

theorem portal_body_hygiene_witness:
  "bodiesOwnedBy (snd freshPortal) (self (fst freshPortal)) = meshBodies (fst freshPortal)
   \<and> distinct (map node_id (group_children (fst freshPortal)))
   \<and> meshBodies (fst freshPortal) = [0, 1, 2, 3, 4, 5]
   \<and> bodiesOwnedBy (snd (fst (destroyPortal freshPortal))) 100 = []
   \<and> bodiesOwnedBy (snd ((reDraw ^^ 3) freshPortal)) 100
       = meshBodies (fst ((reDraw ^^ 3) freshPortal))
   \<and> length (bodiesOwnedBy (snd ((reDraw ^^ 3) freshPortal)) 100) = 6"
proof -
  have h: "bodiesOwnedBy (snd freshPortal) (self (fst freshPortal)) = meshBodies (fst freshPortal)"
    "distinct (map node_id (group_children (fst freshPortal)))"
    by (simp_all add: freshPortal_eval)
  have three: "(0::nat) < 3" by simp
  from portal_body_hygiene [OF h] three freshPortal_eval(1,3) h
  show ?thesis by (simp del: funpow.simps)
qed

end
